theory Spec2Isabelle
  imports Complex_Main "HOL-Library.List_Lexorder"
begin

section \<open>Errors and array helpers\<close>

text \<open>
  The exceptions of the Python code are values. \<open>RuntimeError\<close> carries the message,
  since the source raises it in two places with different messages.
  Floating-point arrays are lists of real numbers: rounding and overflow are not part
  of this model. \<open>FloatingPointError\<close> is no exception of the code: it stands for a
  returned float that is NaN or infinite, which the real numbers cannot express.
\<close>

datatype error =
    TypeError
  | ValueError
  | IndexError
  | KeyError
  | LinAlgError
  | RuntimeError string
  | FloatingPointError

text \<open>\<^verbatim>\<open>np.flatnonzero(a == v)\<close>: the positions of \<open>v\<close> in \<open>a\<close>, ascending.\<close>

definition flatnonzero_eq :: "'a list \<Rightarrow> 'a \<Rightarrow> nat list" where
  "flatnonzero_eq a v = filter (\<lambda>s. a ! s = v) [0..<length a]"

text \<open>The position of the first occurrence of an element (the length when absent).\<close>

fun index_of :: "'a \<Rightarrow> 'a list \<Rightarrow> nat" where
  "index_of x [] = 0"
| "index_of x (y # ys) = (if x = y then 0 else Suc (index_of x ys))"

text \<open>
  \<^verbatim>\<open>np.unique(a)\<close>: the sorted distinct elements. With \<^verbatim>\<open>axis=0\<close> the elements are
  the rows, ordered lexicographically. \<^verbatim>\<open>return_inverse=True\<close> adds, for every element
  of \<open>a\<close>, its position among the distinct ones.
\<close>

definition np_unique :: "'a::linorder list \<Rightarrow> 'a list" where
  "np_unique a = sort (remdups a)"

definition np_unique_inverse :: "'a::linorder list \<Rightarrow> 'a list \<times> nat list" where
  "np_unique_inverse a = (np_unique a, map (\<lambda>x. index_of x (np_unique a)) a)"

text \<open>
  \<^verbatim>\<open>np.argsort(a)\<close>: the positions of \<open>a\<close> in ascending order of their values. The
  order numpy gives to equal values is not fixed by its default sort; here equal values
  keep their order of position.
\<close>

definition argsort :: "real list \<Rightarrow> nat list" where
  "argsort a = sort_key (\<lambda>i. a ! i) [0..<length a]"

text \<open>\<^verbatim>\<open>np.argmax(a)\<close>: the first position of the maximum; ValueError on an empty array.\<close>

definition argmax :: "real list \<Rightarrow> error + nat" where
  "argmax a = (if a = [] then Inl ValueError else Inr (index_of (Max (set a)) a))"

text \<open>
  \<^verbatim>\<open>np.tril_indices_from(m, k=-1)\<close>: the row and the column indices of the entries
  strictly below the diagonal, row by row.
\<close>

definition tril_indices_from :: "'a list list \<Rightarrow> nat list \<times> nat list" where
  "tril_indices_from m =
     (concat (map (\<lambda>i. map (\<lambda>j. i) [0..<i]) [0..<length m]),
      concat (map (\<lambda>i. map (\<lambda>j. j) [0..<i]) [0..<length m]))"

text \<open>\<^verbatim>\<open>m[(rows, cols)]\<close>: the entries of a matrix at paired row and column indices.\<close>

definition take_entries :: "'a list list \<Rightarrow> nat list \<times> nat list \<Rightarrow> 'a list" where
  "take_entries m ix = map (\<lambda>(i, j). m ! i ! j) (zip (fst ix) (snd ix))"

text \<open>
  \<^verbatim>\<open>np.mean\<close> of a vector, and \<^verbatim>\<open>m.mean(axis=0)\<close>: the mean of every column.
  Every call of \<open>mean\<close> below has a non-empty argument (numpy's mean of an empty
  array is NaN).
\<close>

definition mean :: "real list \<Rightarrow> real" where
  "mean a = sum_list a / real (length a)"

definition mean_axis0 :: "real list list \<Rightarrow> real list" where
  "mean_axis0 m =
     (case m of
        [] \<Rightarrow> []
      | row0 # _ \<Rightarrow> map (\<lambda>g. mean (map (\<lambda>row. row ! g) m)) [0..<length row0])"

section \<open>Distances between cluster centers\<close>

text \<open>
  \<^verbatim>\<open>pairwise_distances(centers, metric="euclidean")\<close> of scikit-learn: the symmetric
  matrix of Euclidean distances between the rows; it raises ValueError on an array
  with no row.
\<close>

definition euclidean :: "real list \<Rightarrow> real list \<Rightarrow> real" where
  "euclidean a b = sqrt (\<Sum>(x, y)\<leftarrow>zip a b. (x - y)\<^sup>2)"

definition pairwise_distances :: "real list list \<Rightarrow> error + real list list" where
  "pairwise_distances cs =
     (if cs = [] then Inl ValueError
      else Inr (map (\<lambda>a. map (\<lambda>b. euclidean a b) cs) cs))"

section \<open>PerimeterSplit\<close>

text \<open>
  One trial of \<^verbatim>\<open>PerimeterSplit._iter_indices\<close>. Its input \<open>centers\<close> is what
  \<^verbatim>\<open>compute_kmeans_clustering(X, random_state_offset=i, return_centers=True)\<close> returns
  as second component: for every sample, the coordinates of the center of its cluster.
  \<open>n_test\<close> is the target test size that \<^verbatim>\<open>_validate_shuffle_split\<close> computes.

  The loop over \<^verbatim>\<open>maximum_distance_indices\<close>: \<open>break\<close> once the test set has reached
  \<open>n_test\<close>, \<open>continue\<close> when one group of the pair has left \<open>remaining\<close>, else move
  both groups of the pair to the test set. \<open>remaining\<close> is a Python set.
\<close>

fun perimeter_loop ::
  "nat list \<Rightarrow> nat list \<Rightarrow> nat list \<times> nat list \<Rightarrow> nat \<Rightarrow> nat list \<Rightarrow>
   nat list \<times> nat set \<Rightarrow> nat list \<times> nat set" where
  "perimeter_loop group_indices groups_set tril n_test [] (test_indices, remaining) =
     (test_indices, remaining)"
| "perimeter_loop group_indices groups_set tril n_test (pos # rest) (test_indices, remaining) =
     (if length test_indices \<ge> n_test then (test_indices, remaining)
      else
        let i = fst tril ! pos; j = snd tril ! pos in
        if \<not> (i \<in> remaining \<and> j \<in> remaining)
        then perimeter_loop group_indices groups_set tril n_test rest (test_indices, remaining)
        else perimeter_loop group_indices groups_set tril n_test rest
               (test_indices @ flatnonzero_eq group_indices (groups_set ! i)
                             @ flatnonzero_eq group_indices (groups_set ! j),
                remaining - {i} - {j}))"

text \<open>
  The train set: the members of every group still in \<open>remaining\<close>. Python iterates
  the set in an order of its own; the ascending order stands for it.
\<close>

definition train_of_remaining :: "nat list \<Rightarrow> nat list \<Rightarrow> nat set \<Rightarrow> nat list" where
  "train_of_remaining group_indices groups_set remaining =
     concat (map (\<lambda>i. flatnonzero_eq group_indices (groups_set ! i))
                 (sorted_list_of_set remaining))"

definition PerimeterSplit_trial ::
  "real list list \<Rightarrow> nat \<Rightarrow> error + (nat list \<times> nat list)" where
  "PerimeterSplit_trial centers n_test =
     (let (centers', group_indices) = np_unique_inverse centers;
          groups_set = np_unique group_indices
      in case pairwise_distances centers' of
           Inl e \<Rightarrow> Inl e
         | Inr distance_matrix \<Rightarrow>
             let tril_indices = tril_indices_from distance_matrix;
                 maximum_distance_indices =
                   rev (argsort (take_entries distance_matrix tril_indices));
                 (test_indices, remaining) =
                   perimeter_loop group_indices groups_set tril_indices n_test
                     maximum_distance_indices ([], set groups_set);
                 train_indices = train_of_remaining group_indices groups_set remaining
             in Inr (train_indices, test_indices))"

text \<open>
  \<^verbatim>\<open>_iter_indices\<close> yields one trial per clustering; \<open>clusterings\<close> lists the centers
  of the \<open>n_splits\<close> clusterings in the order of the trials.
\<close>

definition PerimeterSplit_iter_indices ::
  "real list list list \<Rightarrow> nat \<Rightarrow> (error + (nat list \<times> nat list)) list" where
  "PerimeterSplit_iter_indices clusterings n_test =
     map (\<lambda>centers. PerimeterSplit_trial centers n_test) clusterings"

section \<open>MaxDissimilaritySplit\<close>

text \<open>
  One trial of \<^verbatim>\<open>MaxDissimilaritySplit._iter_indices\<close>, in two parts. The first
  (up to the two \<^verbatim>\<open>np.flatnonzero\<close> calls) chooses the anchors and the initial index
  sets: it returns \<open>(test_idx, train_idx, train_indices, test_indices)\<close>.
\<close>

definition MaxDissimilaritySplit_seed ::
  "real list list \<Rightarrow> error + (nat \<times> nat \<times> nat list \<times> nat list)" where
  "MaxDissimilaritySplit_seed centers =
     (let (centers', group_indices) = np_unique_inverse centers;
          groups_set = np_unique group_indices
      in case pairwise_distances centers' of
           Inl e \<Rightarrow> Inl e
         | Inr distance_matrix \<Rightarrow>
             (case argmax (mean_axis0 distance_matrix) of
                Inl e \<Rightarrow> Inl e
              | Inr test_idx \<Rightarrow>
                  (case argmax (distance_matrix ! test_idx) of
                     Inl e \<Rightarrow> Inl e
                   | Inr train_idx \<Rightarrow>
                       Inr (test_idx, train_idx,
                            flatnonzero_eq group_indices (groups_set ! train_idx),
                            flatnonzero_eq group_indices (groups_set ! test_idx)))))"

text \<open>
  The loop over \<^verbatim>\<open>sorted_groups\<close>: \<open>break\<close> once the train set has reached
  \<open>n_train\<close>, \<open>continue\<close> on the two anchors, else append the members of the group.
\<close>

fun max_dissimilarity_loop ::
  "nat list \<Rightarrow> nat list \<Rightarrow> nat \<Rightarrow> nat \<Rightarrow> nat \<Rightarrow> nat list \<Rightarrow> nat list \<Rightarrow> nat list" where
  "max_dissimilarity_loop group_indices groups_set n_train train_idx test_idx [] train_indices =
     train_indices"
| "max_dissimilarity_loop group_indices groups_set n_train train_idx test_idx (group_idx # rest)
     train_indices =
     (if length train_indices \<ge> n_train then train_indices
      else if group_idx = train_idx \<or> group_idx = test_idx
      then max_dissimilarity_loop group_indices groups_set n_train train_idx test_idx rest
             train_indices
      else max_dissimilarity_loop group_indices groups_set n_train train_idx test_idx rest
             (train_indices @ flatnonzero_eq group_indices (groups_set ! group_idx)))"

text \<open>
  The whole trial. \<open>n_samples\<close> is the number of rows of \<open>X\<close>, one center per row.
  \<^verbatim>\<open>remaining_groups\<close> lists a Python set; the ascending order stands for its order.
\<close>

definition MaxDissimilaritySplit_trial ::
  "real list list \<Rightarrow> nat \<Rightarrow> error + (nat list \<times> nat list)" where
  "MaxDissimilaritySplit_trial centers n_train =
     (let n_samples = length centers;
          (centers', group_indices) = np_unique_inverse centers;
          groups_set = np_unique group_indices
      in case pairwise_distances centers' of
           Inl e \<Rightarrow> Inl e
         | Inr distance_matrix \<Rightarrow>
             (case MaxDissimilaritySplit_seed centers of
                Inl e \<Rightarrow> Inl e
              | Inr (test_idx, train_idx, train_indices0, test_indices0) \<Rightarrow>
                  let sorted_groups = argsort (distance_matrix ! train_idx);
                      train_indices =
                        max_dissimilarity_loop group_indices groups_set n_train train_idx
                          test_idx sorted_groups train_indices0;
                      remaining_groups =
                        sorted_list_of_set
                          (set [0..<n_samples] - set train_indices - set test_indices0);
                      test_indices = test_indices0 @ remaining_groups
                  in Inr (train_indices, test_indices)))"

definition MaxDissimilaritySplit_iter_indices ::
  "real list list list \<Rightarrow> nat \<Rightarrow> (error + (nat list \<times> nat list)) list" where
  "MaxDissimilaritySplit_iter_indices clusterings n_train =
     map (\<lambda>centers. MaxDissimilaritySplit_trial centers n_train) clusterings"

section \<open>Scoring a distribution of distances\<close>

text \<open>
  The distances are double-precision floats. The model computes with real numbers and
  keeps, of the rounding, the underflow to zero: a real number whose magnitude is at
  most \<open>(1 / 2) ^ 1075\<close>, half the least positive double, is the double 0.
\<close>

definition underflow :: "real \<Rightarrow> real" where
  "underflow x = (if \<bar>x\<bar> \<le> (1 / 2) ^ 1075 then 0 else x)"

text \<open>
  \<^verbatim>\<open>scipy.stats.gaussian_kde(dataset)\<close> for a one-dimensional dataset with equal
  weights. It raises ValueError unless the dataset has several elements. The bandwidth
  is Scott's factor \<open>n\<^sup>-\<^sup>1\<^sup>/\<^sup>5\<close>, the kernel covariance is the sample variance
  (\<^verbatim>\<open>np.cov\<close>, divisor \<open>n - 1\<close>) times the squared factor; its Cholesky factorisation
  raises LinAlgError unless the covariance is positive. The estimate at \<open>x\<close> is
  the mean of the Gaussian kernels centered at the data points. The squared deviations,
  the covariance and the kernels can underflow: the variance of two values that
  are very close is 0, and the estimate of a narrow sample is 0 away from its values.
\<close>

definition np_cov :: "real list \<Rightarrow> real" where
  "np_cov dataset =
     (\<Sum>x\<leftarrow>dataset. underflow ((x - mean dataset)\<^sup>2)) / (real (length dataset) - 1)"

definition scotts_factor :: "nat \<Rightarrow> real" where
  "scotts_factor n = real n powr (- 1 / 5)"

definition kde_evaluate :: "real list \<Rightarrow> real \<Rightarrow> real \<Rightarrow> real" where
  "kde_evaluate dataset covariance x =
     (\<Sum>xi\<leftarrow>dataset. underflow (exp (- ((x - xi)\<^sup>2) / (2 * covariance)))
                      / real (length dataset))
       / sqrt (2 * pi * covariance)"

definition gaussian_kde :: "real list \<Rightarrow> error + (real \<Rightarrow> real)" where
  "gaussian_kde dataset =
     (if length dataset \<le> 1 then Inl ValueError
      else
        let covariance = underflow (np_cov dataset * (scotts_factor (length dataset))\<^sup>2) in
        if covariance \<le> 0 then Inl LinAlgError
        else Inr (kde_evaluate dataset covariance))"

text \<open>
  \<^verbatim>\<open>np.linspace(start, stop, num)\<close>: \<open>num\<close> equally spaced points from \<open>start\<close> to
  \<open>stop\<close>, both included; one point is \<open>start\<close> alone, with no step.
\<close>

definition linspace :: "real \<Rightarrow> real \<Rightarrow> nat \<Rightarrow> real list" where
  "linspace start stop num =
     (if num = 1 then [start]
      else map (\<lambda>i. start + real i * ((stop - start) / real (num - 1))) [0..<num])"

text \<open>
  \<^verbatim>\<open>scipy.special.rel_entr(x, y)\<close> is \<open>x log (x / y)\<close> for positive \<open>x\<close> and \<open>y\<close>, zero
  for \<open>x = 0\<close> and \<open>y \<ge> 0\<close>, and infinite otherwise. A result that is not a finite
  number is \<open>None\<close>.
\<close>

definition rel_entr :: "real \<Rightarrow> real \<Rightarrow> real option" where
  "rel_entr x y =
     (if 0 < x \<and> 0 < y then Some (x * ln (x / y))
      else if x = 0 \<and> 0 \<le> y then Some 0
      else None)"

text \<open>
  \<^verbatim>\<open>scipy.spatial.distance.jensenshannon(p, q, base)\<close> for two vectors of the same
  length: it divides each by its sum, takes the pointwise mean \<open>m\<close>, sums
  \<open>rel_entr p m\<close> and \<open>rel_entr q m\<close>, divides by \<open>log base\<close> and returns the square
  root of the half. A division of a non-empty vector by a zero sum gives no finite
  number. The model is for a base above 1; the code passes 2.
\<close>

definition jensenshannon :: "real list \<Rightarrow> real list \<Rightarrow> real \<Rightarrow> real option" where
  "jensenshannon p q base =
     (if (p \<noteq> [] \<and> sum_list p = 0) \<or> (q \<noteq> [] \<and> sum_list q = 0) then None
      else
        let p' = map (\<lambda>x. x / sum_list p) p;
            q' = map (\<lambda>x. x / sum_list q) q;
            m = map (\<lambda>(x, y). (x + y) / 2) (zip p' q');
            left = those (map (\<lambda>(x, y). rel_entr x y) (zip p' m));
            right = those (map (\<lambda>(x, y). rel_entr x y) (zip q' m))
        in case (left, right) of
             (Some left, Some right) \<Rightarrow>
               Some (sqrt ((sum_list left + sum_list right) / ln base / 2))
           | _ \<Rightarrow> None)"

text \<open>
  \<^verbatim>\<open>MOODSplitter.score_representativeness\<close>. The estimator of scipy is the
  parameter \<open>kde\<close>: it maps a dataset to the exception it raises or to the density
  it fits, and the properties of the score are proved for every estimator;
  \<open>gaussian_kde\<close> above is the estimator that \<open>fit\<close> and the examples use. The
  split's estimate is fitted first, so its exception comes first. When the returned
  float is not a number (NaN), the model gives \<open>Inl FloatingPointError\<close>: so it is
  when all the density values of a sample on the grid are 0.
\<close>

definition score_representativeness ::
  "(real list \<Rightarrow> error + (real \<Rightarrow> real)) \<Rightarrow> real list \<Rightarrow> real list \<Rightarrow> nat \<Rightarrow> error + real" where
  "score_representativeness kde downstream_distances distances num_samples =
     (case kde distances of
        Inl e \<Rightarrow> Inl e
      | Inr pdf_split \<Rightarrow>
          (case kde downstream_distances of
             Inl e \<Rightarrow> Inl e
           | Inr pdf_downstream \<Rightarrow>
               let vmin = Min (set (downstream_distances @ distances));
                   vmax = Max (set (downstream_distances @ distances));
                   positions = linspace vmin vmax num_samples;
                   samples_split = map pdf_split positions;
                   samples_downstream = map pdf_downstream positions
               in (case jensenshannon samples_downstream samples_split 2 of
                     None \<Rightarrow> Inl FloatingPointError
                   | Some d \<Rightarrow> Inr (1 - d))))"

section \<open>SplitCharacterization\<close>

record SplitCharacterization =
  distances :: "real list"
  representativeness :: real
  label :: string

text \<open>\<^verbatim>\<open>SplitCharacterization.concat\<close>; \<open>names.pop()\<close> takes the only name of the set.\<close>

definition concat_splits :: "SplitCharacterization list \<Rightarrow> error + SplitCharacterization" where
  "concat_splits splits =
     (let names = set (map label splits) in
      if card names \<noteq> 1
      then Inl (RuntimeError ''Can only concatenate equally labeled split characterizations'')
      else Inr \<lparr>distances = concat (map distances splits),
                representativeness = mean (map representativeness splits),
                label = the_elem names\<rparr>)"

text \<open>
  \<^verbatim>\<open>SplitCharacterization.best\<close>: Python's \<open>max\<close> with a key keeps the first of the
  elements with the greatest key, and raises ValueError on an empty sequence.
\<close>

definition best :: "SplitCharacterization list \<Rightarrow> error + SplitCharacterization" where
  "best splits =
     (case splits of
        [] \<Rightarrow> Inl ValueError
      | spl0 # rest \<Rightarrow>
          Inr (fold (\<lambda>spl cur. if representativeness spl > representativeness cur
                                then spl else cur) rest spl0))"

section \<open>MOODSplitter\<close>

text \<open>
  A candidate splitter is an object of a subclass of \<^verbatim>\<open>BaseShuffleSplit\<close>: it has a
  number of splits, and \<^verbatim>\<open>split(X, y, groups)\<close> yields what its \<^verbatim>\<open>_iter_indices\<close>
  yields, a sequence of \<open>(train, test)\<close> index pairs that an exception may end.
  \<open>X\<close> is a list of feature vectors of a type \<open>'f\<close>.
\<close>

record 'f splitter =
  get_n_splits :: nat
  iter_indices :: "'f list \<Rightarrow> (error + (nat list \<times> nat list)) list"

text \<open>
  The attributes of a \<^verbatim>\<open>MOODSplitter\<close>: \<open>attr_k\<close> is \<^verbatim>\<open>self._k\<close>, and so on.
  \<open>attr_metric\<close> is the distance that \<^verbatim>\<open>metric\<close> and \<^verbatim>\<open>p\<close> select,
  \<open>attr_splitters\<close> the dictionary in its order of insertion.
\<close>

record 'f MOODSplitter =
  attr_n_splits :: nat
  attr_k :: nat
  attr_metric :: "'f \<Rightarrow> 'f \<Rightarrow> real"
  attr_splitters :: "(string \<times> 'f splitter) list"
  attr_downstream_distances :: "real list option"
  attr_split_chars :: "SplitCharacterization list option"
  attr_prescribed_splitter_label :: "string option"

text \<open>\<^verbatim>\<open>MOODSplitter.__init__\<close>; the \<open>isinstance\<close> check is the type of \<open>splitters\<close>.\<close>

definition MOODSplitter_init ::
  "(string \<times> 'f splitter) list \<Rightarrow> real list option \<Rightarrow> ('f \<Rightarrow> 'f \<Rightarrow> real) \<Rightarrow> nat \<Rightarrow>
   error + 'f MOODSplitter" where
  "MOODSplitter_init splitters downstream_distances metric k =
     (let n_splits_per_splitter = map (\<lambda>(name, obj). get_n_splits obj) splitters in
      if \<not> card (set n_splits_per_splitter) = 1 then Inl TypeError
      else Inr \<lparr>attr_n_splits = hd n_splits_per_splitter,
                attr_k = k,
                attr_metric = metric,
                attr_splitters = splitters,
                attr_downstream_distances = downstream_distances,
                attr_split_chars = None,
                attr_prescribed_splitter_label = None\<rparr>)"

definition fitted :: "'f MOODSplitter \<Rightarrow> bool" where
  "fitted self = (attr_prescribed_splitter_label self \<noteq> None)"





text \<open>
  \<^verbatim>\<open>NearestNeighbors(n_neighbors, metric).fit(X_to).kneighbors(X_from)\<close> of
  scikit-learn: for every query point the \<open>n_neighbors\<close> smallest distances to the
  points of \<open>X_to\<close>, ascending. Without query points (\<open>None\<close>) the points of \<open>X_to\<close>
  are the queries and a point is not its own neighbor. ValueError when there are not
  enough points.
\<close>

definition kneighbors ::
  "('f \<Rightarrow> 'f \<Rightarrow> real) \<Rightarrow> nat \<Rightarrow> 'f list \<Rightarrow> 'f list option \<Rightarrow> error + real list list" where
  "kneighbors metric n_neighbors X_to X_from =
     (if n_neighbors = 0 \<or> X_to = [] then Inl ValueError
      else
        (case X_from of
           Some Q \<Rightarrow>
             if n_neighbors > length X_to then Inl ValueError
             else Inr (map (\<lambda>q. take n_neighbors (sort (map (metric q) X_to))) Q)
         | None \<Rightarrow>
             if n_neighbors \<ge> length X_to then Inl ValueError
             else Inr (map (\<lambda>i. take n_neighbors
                                   (sort (map (metric (X_to ! i))
                                              (take i X_to @ drop (Suc i) X_to))))
                           [0..<length X_to])))"

text \<open>\<^verbatim>\<open>MOODSplitter._compute_distance\<close>: the mean distance to the \<open>k\<close> nearest neighbors.\<close>

definition compute_distance ::
  "'f MOODSplitter \<Rightarrow> 'f list option \<Rightarrow> 'f list \<Rightarrow> error + real list" where
  "compute_distance self X_from X_to =
     (case kneighbors (attr_metric self) (attr_k self) X_to X_from of
        Inl e \<Rightarrow> Inl e
      | Inr neighbor_distances \<Rightarrow> Inr (map mean neighbor_distances))"

text \<open>\<^verbatim>\<open>X[indices]\<close>: the rows at the indices; IndexError when one is out of bounds.\<close>

definition take_rows :: "'f list \<Rightarrow> nat list \<Rightarrow> error + 'f list" where
  "take_rows X indices =
     (if list_all (\<lambda>i. i < length X) indices then Inr (map (\<lambda>i. X ! i) indices)
      else Inl IndexError)"

text \<open>
  The call \<^verbatim>\<open>self.score_representativeness(self._downstream_distances, distances)\<close>
  of \<^verbatim>\<open>fit\<close>. With no stored distances the first argument is \<open>None\<close>, which
  \<^verbatim>\<open>gaussian_kde\<close> refuses with ValueError, after it has accepted the second.
\<close>

definition score_downstream :: "'f MOODSplitter \<Rightarrow> real list \<Rightarrow> error + real" where
  "score_downstream self distances' =
     (case attr_downstream_distances self of
        Some downstream_distances \<Rightarrow>
          score_representativeness gaussian_kde downstream_distances distances' 100
      | None \<Rightarrow>
          (case gaussian_kde distances' of
             Inl e \<Rightarrow> Inl e
           | Inr pdf_split \<Rightarrow> Inl ValueError))"

text \<open>
  The inner loop of \<^verbatim>\<open>fit\<close> over the splits of one splitter. Over the real numbers
  the two filters of non-finite distances keep every distance.
\<close>

fun characterize_splits ::
  "'f MOODSplitter \<Rightarrow> 'f list \<Rightarrow> string \<Rightarrow> (error + (nat list \<times> nat list)) list \<Rightarrow>
   error + SplitCharacterization list" where
  "characterize_splits self X name [] = Inr []"
| "characterize_splits self X name (Inl e # it) = Inl e"
| "characterize_splits self X name (Inr (train, test) # it) =
     (case take_rows X test of
        Inl e \<Rightarrow> Inl e
      | Inr X_test \<Rightarrow>
     (case take_rows X train of
        Inl e \<Rightarrow> Inl e
      | Inr X_train \<Rightarrow>
     (case compute_distance self (Some X_test) X_train of
        Inl e \<Rightarrow> Inl e
      | Inr distances' \<Rightarrow>
     (case score_downstream self distances' of
        Inl e \<Rightarrow> Inl e
      | Inr score \<Rightarrow>
     (case characterize_splits self X name it of
        Inl e \<Rightarrow> Inl e
      | Inr chars \<Rightarrow>
          Inr (\<lparr>distances = distances', representativeness = score, label = name\<rparr>
               # chars))))))"

text \<open>The outer loop of \<^verbatim>\<open>fit\<close> over the splitters.\<close>

fun characterize_splitters ::
  "'f MOODSplitter \<Rightarrow> 'f list \<Rightarrow> (string \<times> 'f splitter) list \<Rightarrow>
   error + SplitCharacterization list" where
  "characterize_splitters self X [] = Inr []"
| "characterize_splitters self X ((name, obj) # it) =
     (case characterize_splits self X name (iter_indices obj X) of
        Inl e \<Rightarrow> Inl e
      | Inr chars \<Rightarrow>
     (case concat_splits chars of
        Inl e \<Rightarrow> Inl e
      | Inr c \<Rightarrow>
     (case characterize_splitters self X it of
        Inl e \<Rightarrow> Inl e
      | Inr split_chars \<Rightarrow> Inr (c # split_chars))))"

text \<open>
  \<^verbatim>\<open>MOODSplitter.fit\<close> (without plot and progress bar). It returns the object as
  the call leaves it and the exception it raised, if any. The first statement stores
  the downstream distances when none are stored; the characterizations and the label
  are stored by the last two assignments only.
\<close>

definition fit ::
  "'f MOODSplitter \<Rightarrow> 'f list \<Rightarrow> 'f list option \<Rightarrow> 'f MOODSplitter \<times> error option" where
  "fit self X X_deployment =
     (case (case attr_downstream_distances self of
              None \<Rightarrow>
                (case compute_distance self X_deployment X of
                   Inl e \<Rightarrow> Inl e
                 | Inr d \<Rightarrow> Inr (self\<lparr>attr_downstream_distances := Some d\<rparr>))
            | Some d \<Rightarrow> Inr self) of
        Inl e \<Rightarrow> (self, Some e)
      | Inr self1 \<Rightarrow>
          (case characterize_splitters self1 X (attr_splitters self1) of
             Inl e \<Rightarrow> (self1, Some e)
           | Inr split_chars \<Rightarrow>
               (case best split_chars of
                  Inl e \<Rightarrow> (self1, Some e)
                | Inr chosen \<Rightarrow>
                    (self1\<lparr>attr_split_chars := Some split_chars,
                            attr_prescribed_splitter_label := Some (label chosen)\<rparr>, None))))"

section \<open>Notions of the specification\<close>

text \<open>
  The de-duplicated groups of a clustering: the group index of every sample, the number
  of groups, the member samples of a group, and the size of the largest group.
\<close>

definition group_indices_of :: "real list list \<Rightarrow> nat list" where
  "group_indices_of centers = snd (np_unique_inverse centers)"

definition n_groups :: "real list list \<Rightarrow> nat" where
  "n_groups centers = length (np_unique centers)"

definition group_members :: "real list list \<Rightarrow> nat \<Rightarrow> nat list" where
  "group_members centers g = filter (\<lambda>s. group_indices_of centers ! s = g) [0..<length centers]"

definition max_group_size :: "real list list \<Rightarrow> nat" where
  "max_group_size centers =
     Max (set (map (\<lambda>g. length (group_members centers g)) [0..<n_groups centers]))"

text \<open>
  The distance between the centers of two groups, and the mean distance of a group to
  all other groups.
\<close>

definition group_distance :: "real list list \<Rightarrow> nat \<Rightarrow> nat \<Rightarrow> real" where
  "group_distance centers g h = euclidean (np_unique centers ! g) (np_unique centers ! h)"


text \<open>The matrix that \<open>pairwise_distances\<close> returns for the de-duplicated centers.\<close>

definition distance_matrix_of :: "real list list \<Rightarrow> real list list" where
  "distance_matrix_of centers =
     map (\<lambda>a. map (\<lambda>b. euclidean a b) (np_unique centers)) (np_unique centers)"

text \<open>
  A valid distance sample has at least two distinct values. A vector is normalized by
  dividing it by its sum. The Jensen-Shannon divergence of two probability vectors, in
  base 2, is the mean of their Kullback-Leibler divergences from their pointwise mean.
  \<open>kl_sum\<close> and \<open>pair_term\<close> are the sums of the proofs below.
\<close>

definition valid_sample :: "real list \<Rightarrow> bool" where
  "valid_sample a = (2 \<le> length (remdups a))"

definition normalized :: "real list \<Rightarrow> real list" where
  "normalized v = map (\<lambda>x. x / sum_list v) v"

definition pointwise_mean :: "real list \<Rightarrow> real list \<Rightarrow> real list" where
  "pointwise_mean p q = map (\<lambda>(x, y). (x + y) / 2) (zip p q)"

definition kl_sum :: "real list \<Rightarrow> real list \<Rightarrow> real" where
  "kl_sum p m = (\<Sum>(x, y)\<leftarrow>zip p m. x * ln (x / y))"

definition kl_divergence2 :: "real list \<Rightarrow> real list \<Rightarrow> real" where
  "kl_divergence2 P Q = (\<Sum>(x, y)\<leftarrow>zip P Q. if x = 0 then 0 else x * log 2 (x / y))"

definition js_divergence :: "real list \<Rightarrow> real list \<Rightarrow> real" where
  "js_divergence P Q =
     (kl_divergence2 P (pointwise_mean P Q) + kl_divergence2 Q (pointwise_mean P Q)) / 2"


text \<open>
  The values of a density on a grid can be normalized when none is negative and, unless
  the grid is empty, they are not all zero.
\<close>

definition density_vector :: "real list \<Rightarrow> bool" where
  "density_vector p = ((\<forall>x\<in>set p. 0 \<le> x) \<and> (p = [] \<or> 0 < sum_list p))"

text \<open>
  The density estimate of a sample by an estimator, the grid of \<open>n\<close> equally spaced
  points that spans both samples from their least to their greatest value, and the
  score as claim C2 states it: one minus the Jensen-Shannon divergence.
\<close>

definition density :: "(real list \<Rightarrow> error + (real \<Rightarrow> real)) \<Rightarrow> real list \<Rightarrow> real \<Rightarrow> real" where
  "density kde a = (case kde a of Inr pdf \<Rightarrow> pdf | Inl e \<Rightarrow> (\<lambda>x. 0))"

definition shared_grid :: "real list \<Rightarrow> real list \<Rightarrow> nat \<Rightarrow> real list" where
  "shared_grid A B n =
     map (\<lambda>i. Min (set (A @ B)) + real i * ((Max (set (A @ B)) - Min (set (A @ B))) / real (n - 1)))
       [0..<n]"


text \<open>
  The comparison \<^verbatim>\<open>==\<close> of the floats that two calls return: two numbers are equal
  when they are the same number; a NaN is equal to no float, itself included; a call
  that raises returns no float to compare.
\<close>

definition float_eq :: "error + real \<Rightarrow> error + real \<Rightarrow> bool" where
  "float_eq r s = (case (r, s) of (Inr v, Inr w) \<Rightarrow> v = w | _ \<Rightarrow> False)"

section \<open>An example splitter\<close>

text \<open>
  A \<^verbatim>\<open>MOODSplitter\<close> over samples with one real feature, with \<open>k = 1\<close>, the absolute
  difference as metric and one candidate: a MaxDissimilaritySplit with one split, the
  train size 2 and a clustering that gives every sample a center of its own.
\<close>

definition example_splitter :: "real splitter" where
  "example_splitter =
     \<lparr>get_n_splits = 1,
      iter_indices = (\<lambda>X. MaxDissimilaritySplit_iter_indices [map (\<lambda>x. [x]) X] 2)\<rparr>"

definition example_mood :: "real MOODSplitter" where
  "example_mood =
     \<lparr>attr_n_splits = 1,
      attr_k = 1,
      attr_metric = (\<lambda>x y. \<bar>x - y\<bar>),
      attr_splitters = [(''Maximum Dissimilarity'', example_splitter)],
      attr_downstream_distances = None,
      attr_split_chars = None,
      attr_prescribed_splitter_label = None\<rparr>"

section \<open>Properties of the array helpers\<close>

lemma index_of_less: "x \<in> set xs \<Longrightarrow> index_of x xs < length xs"
  by (induction xs) auto

lemma index_of_nth: "distinct xs \<Longrightarrow> k < length xs \<Longrightarrow> index_of (xs ! k) xs = k"
proof (induction xs arbitrary: k)
  case Nil
  then show ?case by simp
next
  case (Cons y ys)
  show ?case
  proof (cases k)
    case 0
    then show ?thesis by simp
  next
    case (Suc m)
    with Cons.prems have "ys ! m \<in> set ys" "ys ! m \<noteq> y" by auto
    with Cons Suc show ?thesis by auto
  qed
qed

lemma set_np_unique: "set (np_unique a) = set a"
  by (simp add: np_unique_def)

lemma distinct_np_unique: "distinct (np_unique a)"
  by (simp add: np_unique_def)

lemma sorted_np_unique: "sorted (np_unique a)"
  by (simp add: np_unique_def)

lemma length_group_indices_of: "length (group_indices_of a) = length a"
  by (simp add: group_indices_of_def np_unique_inverse_def)

lemma group_indices_of_less:
  "s < length a \<Longrightarrow> group_indices_of a ! s < n_groups a"
  by (simp add: group_indices_of_def n_groups_def np_unique_inverse_def index_of_less set_np_unique)

lemma set_group_indices_of: "set (group_indices_of a) = {0..<n_groups a}"
proof -
  let ?u = "np_unique a"
  have "(\<lambda>x. index_of x ?u) ` set ?u = {0..<length ?u}"
  proof (rule set_eqI)
    fix k
    show "k \<in> (\<lambda>x. index_of x ?u) ` set ?u \<longleftrightarrow> k \<in> {0..<length ?u}"
    proof
      assume "k \<in> (\<lambda>x. index_of x ?u) ` set ?u"
      then show "k \<in> {0..<length ?u}" by (auto simp: index_of_less)
    next
      assume "k \<in> {0..<length ?u}"
      then have k: "k < length ?u" by simp
      then have "index_of (?u ! k) ?u = k"
        by (rule index_of_nth [OF distinct_np_unique])
      moreover have "?u ! k \<in> set ?u" using k by simp
      ultimately show "k \<in> (\<lambda>x. index_of x ?u) ` set ?u"
        by (metis image_eqI)
    qed
  qed
  then show ?thesis
    by (simp add: group_indices_of_def n_groups_def np_unique_inverse_def set_np_unique)
qed

lemma groups_set_upt: "np_unique (group_indices_of a) = [0..<n_groups a]"
proof (rule sorted_distinct_set_unique)
  show "set (np_unique (group_indices_of a)) = set [0..<n_groups a]"
    by (simp add: set_np_unique set_group_indices_of)
qed (simp_all add: sorted_np_unique distinct_np_unique)

lemma flatnonzero_group_members:
  "g < n_groups a \<Longrightarrow>
   flatnonzero_eq (group_indices_of a) (np_unique (group_indices_of a) ! g) = group_members a g"
  by (simp add: flatnonzero_eq_def group_members_def groups_set_upt length_group_indices_of)

lemma set_group_members:
  "set (group_members a g) = {s. s < length a \<and> group_indices_of a ! s = g}"
  by (auto simp: group_members_def)

lemma tril_indices_Suc:
  "length m' = Suc (length m) \<Longrightarrow>
   tril_indices_from m' =
     (fst (tril_indices_from m) @ replicate (length m) (length m),
      snd (tril_indices_from m) @ [0..<length m])"
  by (simp add: tril_indices_from_def map_replicate_const)

lemma tril_indices_bounds:
  "length (fst (tril_indices_from m)) = length (snd (tril_indices_from m)) \<and>
   (\<forall>pos < length (fst (tril_indices_from m)).
      snd (tril_indices_from m) ! pos < fst (tril_indices_from m) ! pos \<and>
      fst (tril_indices_from m) ! pos < length m)"
proof (induction "length m" arbitrary: m)
  case 0
  then show ?case by (simp add: tril_indices_from_def)
next
  case (Suc n)
  obtain m0 :: "'a list list" where m0: "length m0 = n"
    using Ex_list_of_length by blast
  have IH: "length (fst (tril_indices_from m0)) = length (snd (tril_indices_from m0)) \<and>
   (\<forall>pos < length (fst (tril_indices_from m0)).
      snd (tril_indices_from m0) ! pos < fst (tril_indices_from m0) ! pos \<and>
      fst (tril_indices_from m0) ! pos < length m0)"
    using Suc.hyps(1) [of m0] m0 by simp
  have eq: "tril_indices_from m =
     (fst (tril_indices_from m0) @ replicate n n, snd (tril_indices_from m0) @ [0..<n])"
    using tril_indices_Suc [of m m0] Suc.hyps(2) m0 by simp
  show ?case
    unfolding eq using IH m0 Suc.hyps(2)
    by (auto simp: nth_append less_Suc_eq)
qed

section \<open>Properties of PerimeterSplit\<close>

lemma set_argsort: "set (argsort a) = {0..<length a}"
  by (simp add: argsort_def)

lemma length_take_entries:
  "length (fst ix) = length (snd ix) \<Longrightarrow> length (take_entries m ix) = length (fst ix)"
  by (simp add: take_entries_def)

lemma perimeter_loop_separates:
  assumes "\<forall>pos\<in>set ps. fst tril ! pos < M \<and> snd tril ! pos < M"
    and "\<forall>g<M. groups_set ! g = g"
    and "perimeter_loop gi groups_set tril n_test ps (test, R) = (test', R')"
    and "\<forall>t\<in>set test. gi ! t \<notin> R"
  shows "(\<forall>t\<in>set test'. gi ! t \<notin> R') \<and> R' \<subseteq> R"
  using assms
proof (induction ps arbitrary: test R)
  case Nil
  then show ?case by simp
next
  case (Cons pos ps)
  let ?i = "fst tril ! pos" and ?j = "snd tril ! pos"
  have ij: "?i < M" "?j < M" using Cons.prems(1) by simp_all
  then have gs: "groups_set ! ?i = ?i" "groups_set ! ?j = ?j"
    using Cons.prems(2) by simp_all
  have rest: "\<forall>pos\<in>set ps. fst tril ! pos < M \<and> snd tril ! pos < M"
    using Cons.prems(1) by simp
  show ?case
  proof (cases "length test \<ge> n_test")
    case True
    with Cons.prems show ?thesis by simp
  next
    case False
    show ?thesis
    proof (cases "?i \<in> R \<and> ?j \<in> R")
      case skip: False
      with False Cons.prems(3)
      have "perimeter_loop gi groups_set tril n_test ps (test, R) = (test', R')"
        by (simp add: Let_def split: if_splits)
      from Cons.IH [OF rest Cons.prems(2) this Cons.prems(4)] show ?thesis .
    next
      case True
      let ?test = "test @ flatnonzero_eq gi ?i @ flatnonzero_eq gi ?j"
      from True False Cons.prems(3) gs
      have run: "perimeter_loop gi groups_set tril n_test ps (?test, R - {?i} - {?j}) = (test', R')"
        by (simp add: Let_def)
      have inv: "\<forall>t\<in>set ?test. gi ! t \<notin> R - {?i} - {?j}"
        using Cons.prems(4) by (auto simp: flatnonzero_eq_def)
      from Cons.IH [OF rest Cons.prems(2) run inv] show ?thesis by auto
    qed
  qed
qed

lemma perimeter_loop_covers:
  assumes "\<forall>pos\<in>set ps. fst tril ! pos < M \<and> snd tril ! pos < fst tril ! pos"
    and "\<forall>g<M. groups_set ! g = g"
    and "perimeter_loop gi groups_set tril n_test ps (test, R) = (test', R')"
    and "distinct test" and "set test = {s. s < length gi \<and> gi ! s < M \<and> gi ! s \<notin> R}"
  shows "distinct test' \<and> set test' = {s. s < length gi \<and> gi ! s < M \<and> gi ! s \<notin> R'}"
  using assms
proof (induction ps arbitrary: test R)
  case Nil
  then show ?case by simp
next
  case (Cons pos ps)
  let ?i = "fst tril ! pos" and ?j = "snd tril ! pos"
  have ij: "?i < M" "?j < M" "?j \<noteq> ?i" using Cons.prems(1) by auto
  then have gs: "groups_set ! ?i = ?i" "groups_set ! ?j = ?j"
    using Cons.prems(2) by simp_all
  have rest: "\<forall>pos\<in>set ps. fst tril ! pos < M \<and> snd tril ! pos < fst tril ! pos"
    using Cons.prems(1) by simp
  show ?case
  proof (cases "length test \<ge> n_test")
    case True
    with Cons.prems show ?thesis by simp
  next
    case False
    show ?thesis
    proof (cases "?i \<in> R \<and> ?j \<in> R")
      case skip: False
      with False Cons.prems(3)
      have "perimeter_loop gi groups_set tril n_test ps (test, R) = (test', R')"
        by (simp add: Let_def split: if_splits)
      from Cons.IH [OF rest Cons.prems(2) this Cons.prems(4,5)] show ?thesis .
    next
      case True
      let ?test = "test @ flatnonzero_eq gi ?i @ flatnonzero_eq gi ?j"
      from True False Cons.prems(3) gs
      have run: "perimeter_loop gi groups_set tril n_test ps (?test, R - {?i} - {?j}) = (test', R')"
        by (simp add: Let_def)
      have A: "set (flatnonzero_eq gi ?i) = {s. s < length gi \<and> gi ! s = ?i}"
        and B: "set (flatnonzero_eq gi ?j) = {s. s < length gi \<and> gi ! s = ?j}"
        by (auto simp: flatnonzero_eq_def)
      have dA: "distinct (flatnonzero_eq gi ?i)" and dB: "distinct (flatnonzero_eq gi ?j)"
        by (simp_all add: flatnonzero_eq_def)
      have out: "\<forall>t\<in>set test. gi ! t \<notin> R"
        unfolding Cons.prems(5) by simp
      have "set test \<inter> set (flatnonzero_eq gi ?i) = {}"
        "set test \<inter> set (flatnonzero_eq gi ?j) = {}"
        "set (flatnonzero_eq gi ?i) \<inter> set (flatnonzero_eq gi ?j) = {}"
        using out True ij(3) unfolding A B by auto
      then have d: "distinct ?test"
        using Cons.prems(4) dA dB by auto
      have "set ?test = set test \<union> {s. s < length gi \<and> gi ! s = ?i}
                \<union> {s. s < length gi \<and> gi ! s = ?j}"
        unfolding set_append A B by blast
      also have "\<dots> = {s. s < length gi \<and> gi ! s < M \<and> gi ! s \<notin> R - {?i} - {?j}}"
        unfolding Cons.prems(5) using ij(1,2) by auto
      finally have s: "set ?test =
          {s. s < length gi \<and> gi ! s < M \<and> gi ! s \<notin> R - {?i} - {?j}}" .
      from Cons.IH [OF rest Cons.prems(2) run d s] show ?thesis .
    qed
  qed
qed

lemma perimeter_loop_last_pair:
  assumes "\<forall>pos\<in>set ps. fst tril ! pos < M \<and> snd tril ! pos < fst tril ! pos"
    and "\<forall>g<M. groups_set ! g = g"
    and "perimeter_loop gi groups_set tril n_test ps (test, R) = (test', R')"
    and "test = [] \<or> (\<exists>test0 i j. j < i \<and> i < M \<and>
           test = test0 @ flatnonzero_eq gi i @ flatnonzero_eq gi j \<and> length test0 < n_test)"
  shows "test' = [] \<or> (\<exists>test0 i j. j < i \<and> i < M \<and>
           test' = test0 @ flatnonzero_eq gi i @ flatnonzero_eq gi j \<and> length test0 < n_test)"
  using assms
proof (induction ps arbitrary: test R)
  case Nil
  then show ?case by simp
next
  case (Cons pos ps)
  let ?i = "fst tril ! pos" and ?j = "snd tril ! pos"
  have ij: "?i < M" "?j < ?i" using Cons.prems(1) by auto
  then have gs: "groups_set ! ?i = ?i" "groups_set ! ?j = ?j"
    using Cons.prems(2) by simp_all
  have rest: "\<forall>pos\<in>set ps. fst tril ! pos < M \<and> snd tril ! pos < fst tril ! pos"
    using Cons.prems(1) by simp
  show ?case
  proof (cases "length test \<ge> n_test")
    case True
    with Cons.prems show ?thesis by simp
  next
    case False
    show ?thesis
    proof (cases "?i \<in> R \<and> ?j \<in> R")
      case skip: False
      with False Cons.prems(3)
      have "perimeter_loop gi groups_set tril n_test ps (test, R) = (test', R')"
        by (simp add: Let_def split: if_splits)
      from Cons.IH [OF rest Cons.prems(2) this Cons.prems(4)] show ?thesis .
    next
      case True
      let ?test = "test @ flatnonzero_eq gi ?i @ flatnonzero_eq gi ?j"
      from True False Cons.prems(3) gs
      have run: "perimeter_loop gi groups_set tril n_test ps (?test, R - {?i} - {?j}) = (test', R')"
        by (simp add: Let_def)
      have "\<exists>test0 i j. j < i \<and> i < M \<and>
           ?test = test0 @ flatnonzero_eq gi i @ flatnonzero_eq gi j \<and> length test0 < n_test"
        using False ij by (intro exI [of _ test] exI [of _ ?i] exI [of _ ?j]) simp
      then have inv: "?test = [] \<or> (\<exists>test0 i j. j < i \<and> i < M \<and>
           ?test = test0 @ flatnonzero_eq gi i @ flatnonzero_eq gi j \<and> length test0 < n_test)"
        by (rule disjI2)
      from Cons.IH [OF rest Cons.prems(2) run inv] show ?thesis .
    qed
  qed
qed



lemma set_train_of_remaining:
  assumes "finite R" and "\<forall>g\<in>R. groups_set ! g = g"
  shows "set (train_of_remaining gi groups_set R) = {s. s < length gi \<and> gi ! s \<in> R}"
  using assms by (auto simp: train_of_remaining_def flatnonzero_eq_def)

lemma np_unique_eq_Nil: "np_unique a = [] \<longleftrightarrow> a = []"
  using set_np_unique [of a] by (metis set_empty)

lemma groups_set_upt_raw:
  "np_unique (map (\<lambda>x. index_of x (np_unique a)) a) = [0..<length (np_unique a)]"
  for a :: "real list list"
  using groups_set_upt [of a]
  by (simp add: group_indices_of_def n_groups_def np_unique_inverse_def)

lemma PerimeterSplit_trial_unfold:
  "PerimeterSplit_trial centers n_test =
     (if centers = [] then Inl ValueError
      else
        let D = map (\<lambda>a. map (\<lambda>b. euclidean a b) (np_unique centers)) (np_unique centers);
            tril = tril_indices_from D;
            ps = rev (argsort (take_entries D tril))
        in case perimeter_loop (group_indices_of centers) [0..<n_groups centers] tril n_test ps
                  ([], {0..<n_groups centers}) of
             (te, R) \<Rightarrow>
               Inr (train_of_remaining (group_indices_of centers) [0..<n_groups centers] R, te))"
  by (simp add: PerimeterSplit_trial_def np_unique_inverse_def groups_set_upt_raw
      pairwise_distances_def np_unique_eq_Nil group_indices_of_def n_groups_def Let_def)

lemma PerimeterSplit_trial_run:
  assumes "PerimeterSplit_trial centers n_test = Inr (train, test)"
  shows "\<exists>tril ps R.
      (\<forall>pos\<in>set ps. fst tril ! pos < n_groups centers \<and> snd tril ! pos < fst tril ! pos) \<and>
      perimeter_loop (group_indices_of centers) [0..<n_groups centers] tril n_test ps
        ([], {0..<n_groups centers}) = (test, R) \<and>
      train = train_of_remaining (group_indices_of centers) [0..<n_groups centers] R"
proof -
  define D where
    "D = map (\<lambda>a. map (\<lambda>b. euclidean a b) (np_unique centers)) (np_unique centers)"
  define tril where "tril = tril_indices_from D"
  define ps where "ps = rev (argsort (take_entries D tril))"
  have len: "length D = n_groups centers" by (simp add: D_def n_groups_def)
  have b: "length (fst tril) = length (snd tril)"
    "\<forall>pos < length (fst tril). snd tril ! pos < fst tril ! pos \<and> fst tril ! pos < length D"
    using tril_indices_bounds [of D] by (simp_all add: tril_def)
  have "set ps = {0..<length (fst tril)}"
    by (simp add: ps_def set_argsort length_take_entries b(1))
  with b(2) len
  have ok: "\<forall>pos\<in>set ps. fst tril ! pos < n_groups centers \<and> snd tril ! pos < fst tril ! pos"
    by simp
  obtain te R where loop:
    "perimeter_loop (group_indices_of centers) [0..<n_groups centers] tril n_test ps
        ([], {0..<n_groups centers}) = (te, R)"
    by (cases "perimeter_loop (group_indices_of centers) [0..<n_groups centers] tril n_test ps
        ([], {0..<n_groups centers})")
  from assms have "centers \<noteq> []"
    by (auto simp: PerimeterSplit_trial_unfold)
  with assms loop have "test = te"
    "train = train_of_remaining (group_indices_of centers) [0..<n_groups centers] R"
    unfolding PerimeterSplit_trial_unfold Let_def D_def [symmetric] tril_def [symmetric]
      ps_def [symmetric]
    by simp_all
  with ok loop show ?thesis by blast
qed

lemma group_members_nonempty:
  assumes "g < n_groups centers"
  shows "group_members centers g \<noteq> []"
proof -
  from assms have "g \<in> set (group_indices_of centers)"
    by (simp add: set_group_indices_of)
  then obtain s where "s < length (group_indices_of centers)" "group_indices_of centers ! s = g"
    by (auto simp: in_set_conv_nth)
  then have "s \<in> set (group_members centers g)"
    by (simp add: set_group_members length_group_indices_of)
  then show ?thesis by auto
qed

lemma group_size_le_max:
  assumes "g < n_groups centers"
  shows "length (group_members centers g) \<le> max_group_size centers"
  unfolding max_group_size_def using assms by (intro Max_ge) auto

lemma flatnonzero_members:
  "flatnonzero_eq (group_indices_of centers) g = group_members centers g"
  by (simp add: flatnonzero_eq_def group_members_def length_group_indices_of)

text \<open>Two clusterings of one-dimensional samples, evaluated.\<close>

lemma euclidean_1d: "euclidean [a] [b] = \<bar>a - b\<bar>"
  by (simp add: euclidean_def)

lemma PerimeterSplit_example_3: "PerimeterSplit_trial [[0], [1], [3]] 1 = Inr ([1], [2, 0])"
  by (simp add: PerimeterSplit_trial_def np_unique_inverse_def np_unique_def pairwise_distances_def
     euclidean_1d flatnonzero_eq_def argsort_def tril_indices_from_def take_entries_def
     train_of_remaining_def Let_def insert_Diff_if)

lemma PerimeterSplit_example_4: "PerimeterSplit_trial [[0], [0], [1], [1]] 1 = Inr ([], [2, 3, 0, 1])"
  by (simp add: PerimeterSplit_trial_def np_unique_inverse_def np_unique_def pairwise_distances_def
     euclidean_1d flatnonzero_eq_def argsort_def tril_indices_from_def take_entries_def
     train_of_remaining_def Let_def insert_Diff_if)

lemma max_group_size_example_4: "max_group_size [[0], [0], [1], [1]] = 2"
  by (simp add: max_group_size_def n_groups_def group_members_def group_indices_of_def
      np_unique_inverse_def np_unique_def)

text \<open>
  Claim C7. Within one trial of PerimeterSplit no de-duplicated group has samples in
  both the train and the test indices: there is a set of groups (the set \<open>remaining\<close>
  when the loop ends) such that the group of every test index is outside it and the
  group of every train index is inside it.
\<close>

theorem PerimeterSplit_groups_not_shared:
  assumes "PerimeterSplit_trial centers n_test = Inr (train_indices, test_indices)"
  shows "(\<forall>s\<in>set train_indices. \<forall>t\<in>set test_indices.
            group_indices_of centers ! s \<noteq> group_indices_of centers ! t) \<and>
         (\<exists>remaining.
            (\<forall>t\<in>set test_indices. group_indices_of centers ! t \<notin> remaining) \<and>
            (\<forall>s\<in>set train_indices. group_indices_of centers ! s \<in> remaining))"
proof -
  let ?gi = "group_indices_of centers" and ?M = "n_groups centers"
  from PerimeterSplit_trial_run [OF assms] obtain tril ps R where
    ok: "\<forall>pos\<in>set ps. fst tril ! pos < ?M \<and> snd tril ! pos < fst tril ! pos"
    and loop: "perimeter_loop ?gi [0..<?M] tril n_test ps ([], {0..<?M}) = (test_indices, R)"
    and train: "train_indices = train_of_remaining ?gi [0..<?M] R"
    by blast
  from ok have ok': "\<forall>pos\<in>set ps. fst tril ! pos < ?M \<and> snd tril ! pos < ?M"
    by auto
  have gs: "\<forall>g<?M. [0..<?M] ! g = g" by simp
  have test: "\<forall>t\<in>set test_indices. ?gi ! t \<notin> R" and sub: "R \<subseteq> {0..<?M}"
    using perimeter_loop_separates [OF ok' gs loop] by simp_all
  from sub have fin: "finite R" by (rule finite_subset) simp
  from sub have "\<forall>g\<in>R. [0..<?M] ! g = g" by auto
  from set_train_of_remaining [OF fin this]
  have tr: "\<forall>s\<in>set train_indices. ?gi ! s \<in> R"
    by (simp add: train)
  from test tr show ?thesis by metis
qed

theorem PerimeterSplit_groups_not_shared_witness:
  "PerimeterSplit_trial [[0], [1], [3]] 1 = Inr ([1], [2, 0]) \<and>
   group_indices_of [[0], [1], [3]] ! 1 \<noteq> group_indices_of [[0], [1], [3]] ! 2 \<and>
   group_indices_of [[0], [1], [3]] ! 1 \<noteq> group_indices_of [[0], [1], [3]] ! 0"
  using PerimeterSplit_groups_not_shared [OF PerimeterSplit_example_3] PerimeterSplit_example_3
  by simp

text \<open>
  Claim C3, as stated: the test set of a PerimeterSplit trial exceeds the target size by
  at most the size of one cluster. It fails for two clusters of two samples and the
  target size 1: the only pair puts all four samples in the test set, 3 more than the
  target, while the largest cluster has 2 samples.
\<close>

theorem PerimeterSplit_overshoot_counterexample:
  "PerimeterSplit_trial [[0], [0], [1], [1]] 1 = Inr ([], [2, 3, 0, 1]) \<and>
   \<not> length [2, 3, 0, 1 :: nat] \<le> 1 + max_group_size [[0], [0], [1], [1]]"
  using PerimeterSplit_example_4 max_group_size_example_4 by simp

text \<open>
  Claim C3, amended. The loop assigns whole pairs and stops as soon as the test set has
  reached the target size: a non-empty test set ends with the two groups of the last
  assigned pair, and was below the target size before them. So the test size exceeds
  the target by less than the size of two clusters.
\<close>

theorem PerimeterSplit_overshoot:
  assumes "PerimeterSplit_trial centers n_test = Inr (train_indices, test_indices)"
  shows "(test_indices = [] \<or>
          (\<exists>test0 i j. j < i \<and> i < n_groups centers \<and>
             test_indices = test0 @ group_members centers i @ group_members centers j \<and>
             length test0 < n_test)) \<and>
         length test_indices < n_test + 2 * max_group_size centers"
proof -
  let ?gi = "group_indices_of centers" and ?M = "n_groups centers"
  from PerimeterSplit_trial_run [OF assms] obtain tril ps R where
    ok: "\<forall>pos\<in>set ps. fst tril ! pos < ?M \<and> snd tril ! pos < fst tril ! pos"
    and loop: "perimeter_loop ?gi [0..<?M] tril n_test ps ([], {0..<?M}) = (test_indices, R)"
    by blast
  have gs: "\<forall>g<?M. [0..<?M] ! g = g" by simp
  have init: "[] = [] \<or> (\<exists>test0 i j. j < i \<and> i < ?M \<and>
      ([]::nat list) = test0 @ flatnonzero_eq ?gi i @ flatnonzero_eq ?gi j \<and> length test0 < n_test)"
    by simp
  have last: "test_indices = [] \<or>
          (\<exists>test0 i j. j < i \<and> i < ?M \<and>
             test_indices = test0 @ group_members centers i @ group_members centers j \<and>
             length test0 < n_test)"
    using perimeter_loop_last_pair [OF ok gs loop init] by (simp add: flatnonzero_members)
  from assms have "centers \<noteq> []" by (auto simp: PerimeterSplit_trial_unfold)
  then have "0 < ?M" by (simp add: n_groups_def np_unique_eq_Nil)
  then have "group_members centers 0 \<noteq> []" "length (group_members centers 0) \<le> max_group_size centers"
    by (simp_all add: group_members_nonempty group_size_le_max)
  then have pos: "0 < max_group_size centers" by (cases "group_members centers 0") auto
  have "length test_indices < n_test + 2 * max_group_size centers"
  proof (cases "test_indices = []")
    case True
    with pos show ?thesis by simp
  next
    case False
    with last obtain test0 i j where ij: "j < i" "i < ?M"
      and t: "test_indices = test0 @ group_members centers i @ group_members centers j"
      and l: "length test0 < n_test"
      by blast
    from ij have "length (group_members centers i) \<le> max_group_size centers"
      "length (group_members centers j) \<le> max_group_size centers"
      by (simp_all add: group_size_le_max)
    with t l show ?thesis by simp
  qed
  with last show ?thesis by simp
qed

theorem PerimeterSplit_overshoot_witness:
  "PerimeterSplit_trial [[0], [0], [1], [1]] 1 = Inr ([], [2, 3, 0, 1]) \<and>
   length [2, 3, 0, 1 :: nat] < 1 + 2 * max_group_size [[0], [0], [1], [1]]"
  using PerimeterSplit_overshoot [OF PerimeterSplit_example_4] PerimeterSplit_example_4
  by simp

section \<open>Properties of MaxDissimilaritySplit\<close>

lemma nth_index_of: "x \<in> set xs \<Longrightarrow> xs ! index_of x xs = x"
  by (induction xs) auto

lemma argmax_Inr:
  assumes "a \<noteq> []"
  shows "\<exists>k. argmax a = Inr k \<and> k < length a \<and> (\<forall>i<length a. a ! i \<le> a ! k)"
proof -
  have m: "Max (set a) \<in> set a" using assms by (intro Max_in) simp_all
  let ?k = "index_of (Max (set a)) a"
  have "a ! ?k = Max (set a)" using m by (rule nth_index_of)
  then have "\<forall>i<length a. a ! i \<le> a ! ?k" by simp
  with m assms show ?thesis by (simp add: argmax_def index_of_less)
qed

lemma argmax_Inr_iff:
  "argmax a = Inr k \<Longrightarrow> a \<noteq> [] \<and> k < length a \<and> (\<forall>i<length a. a ! i \<le> a ! k)"
  using argmax_Inr [of a] by (cases "a = []") (auto simp: argmax_def)

lemma euclidean_self: "euclidean a a = 0"
proof -
  have "(\<Sum>(x, y)\<leftarrow>zip a a. (x - y)\<^sup>2) = 0"
    by (induction a) simp_all
  then show ?thesis by (simp add: euclidean_def)
qed


lemma euclidean_nonneg: "0 \<le> euclidean a b"
proof -
  have "0 \<le> (\<Sum>(x, y)\<leftarrow>zip a b. (x - y)\<^sup>2)"
    by (rule sum_list_nonneg) auto
  then show ?thesis by (simp add: euclidean_def)
qed

lemma length_distance_matrix_of: "length (distance_matrix_of centers) = n_groups centers"
  by (simp add: distance_matrix_of_def n_groups_def)

lemma distance_matrix_of_row:
  "g < n_groups centers \<Longrightarrow>
   distance_matrix_of centers ! g = map (\<lambda>h. group_distance centers g h) [0..<n_groups centers]"
  by (intro nth_equalityI) (simp_all add: distance_matrix_of_def n_groups_def group_distance_def)

lemma mean_axis0_Cons:
  "m \<noteq> [] \<Longrightarrow>
   mean_axis0 m = map (\<lambda>g. mean (map (\<lambda>row. row ! g) m)) [0..<length (hd m)]"
  by (cases m) (simp_all add: mean_axis0_def)

lemma distance_matrix_of_column:
  assumes "g < n_groups centers"
  shows "map (\<lambda>row. row ! g) (distance_matrix_of centers) =
         map (\<lambda>h. group_distance centers h g) [0..<n_groups centers]"
  using assms
  by (intro nth_equalityI) (simp_all add: distance_matrix_of_def n_groups_def group_distance_def)

lemma mean_axis0_distance_matrix_of:
  assumes "centers \<noteq> []"
  shows "mean_axis0 (distance_matrix_of centers) =
     map (\<lambda>g. (\<Sum>h\<leftarrow>[0..<n_groups centers]. group_distance centers h g) / real (n_groups centers))
       [0..<n_groups centers]"
proof -
  let ?D = "distance_matrix_of centers" and ?M = "n_groups centers"
  from assms have M: "0 < ?M" by (simp add: n_groups_def np_unique_eq_Nil)
  then have ne: "?D \<noteq> []"
    using length_distance_matrix_of [of centers] by auto
  have "hd ?D = ?D ! 0" using ne by (simp add: hd_conv_nth)
  then have hd: "length (hd ?D) = ?M"
    using M by (simp add: distance_matrix_of_row)
  have "mean (map (\<lambda>row. row ! g) ?D) =
        (\<Sum>h\<leftarrow>[0..<?M]. group_distance centers h g) / real ?M" if "g < ?M" for g
    unfolding distance_matrix_of_column [OF that] by (simp add: mean_def)
  then show ?thesis
    unfolding mean_axis0_Cons [OF ne] hd by simp
qed

lemma MaxDissimilaritySplit_seed_unfold:
  "MaxDissimilaritySplit_seed centers =
     (if centers = [] then Inl ValueError
      else
        (case argmax (mean_axis0 (distance_matrix_of centers)) of
           Inl e \<Rightarrow> Inl e
         | Inr test_idx \<Rightarrow>
             (case argmax (distance_matrix_of centers ! test_idx) of
                Inl e \<Rightarrow> Inl e
              | Inr train_idx \<Rightarrow>
                  Inr (test_idx, train_idx,
                       flatnonzero_eq (group_indices_of centers) ([0..<n_groups centers] ! train_idx),
                       flatnonzero_eq (group_indices_of centers) ([0..<n_groups centers] ! test_idx)))))"
  by (simp add: MaxDissimilaritySplit_seed_def np_unique_inverse_def groups_set_upt_raw
      pairwise_distances_def np_unique_eq_Nil group_indices_of_def n_groups_def
      distance_matrix_of_def Let_def cong: sum.case_cong)

lemma MaxDissimilaritySplit_trial_unfold:
  "MaxDissimilaritySplit_trial centers n_train =
     (case MaxDissimilaritySplit_seed centers of
        Inl e \<Rightarrow> Inl e
      | Inr (test_idx, train_idx, train_indices0, test_indices0) \<Rightarrow>
          let train_indices =
                max_dissimilarity_loop (group_indices_of centers) [0..<n_groups centers] n_train
                  train_idx test_idx (argsort (distance_matrix_of centers ! train_idx))
                  train_indices0
          in Inr (train_indices,
                  test_indices0 @
                  sorted_list_of_set
                    (set [0..<length centers] - set train_indices - set test_indices0)))"
proof (cases "centers = []")
  case True
  then show ?thesis
    by (simp add: MaxDissimilaritySplit_trial_def MaxDissimilaritySplit_seed_unfold
        np_unique_inverse_def pairwise_distances_def np_unique_eq_Nil)
next
  case False
  then show ?thesis
    by (simp add: MaxDissimilaritySplit_trial_def np_unique_inverse_def groups_set_upt_raw
      pairwise_distances_def np_unique_eq_Nil group_indices_of_def n_groups_def
      distance_matrix_of_def Let_def cong: sum.case_cong)
qed


lemma seed_anchors:
  assumes "MaxDissimilaritySplit_seed centers =
             Inr (test_idx, train_idx, train_indices0, test_indices0)"
  shows "test_idx < n_groups centers" "train_idx < n_groups centers"
    "\<forall>g<n_groups centers.
        group_distance centers test_idx g \<le> group_distance centers test_idx train_idx"
    "train_indices0 = group_members centers train_idx"
    "test_indices0 = group_members centers test_idx"
    "argmax (mean_axis0 (distance_matrix_of centers)) = Inr test_idx"
    "centers \<noteq> []"
proof -
  let ?M = "n_groups centers" and ?D = "distance_matrix_of centers"
  from assms show ne: "centers \<noteq> []"
    by (auto simp: MaxDissimilaritySplit_seed_unfold split: if_splits)
  from assms ne show a1: "argmax (mean_axis0 ?D) = Inr test_idx"
    by (auto simp: MaxDissimilaritySplit_seed_unfold split: sum.splits)
  from assms ne have a2: "argmax (?D ! test_idx) = Inr train_idx"
    and tr: "train_indices0 = flatnonzero_eq (group_indices_of centers) ([0..<?M] ! train_idx)"
    and te: "test_indices0 = flatnonzero_eq (group_indices_of centers) ([0..<?M] ! test_idx)"
    by (auto simp: MaxDissimilaritySplit_seed_unfold split: sum.splits)
  from argmax_Inr_iff [OF a1] show t: "test_idx < ?M"
    by (simp add: mean_axis0_distance_matrix_of [OF ne])
  have row: "?D ! test_idx = map (\<lambda>h. group_distance centers test_idx h) [0..<?M]"
    by (rule distance_matrix_of_row [OF t])
  from argmax_Inr_iff [OF a2] show r: "train_idx < ?M"
    by (simp add: row)
  from argmax_Inr_iff [OF a2]
  have "\<forall>g<length (?D ! test_idx). ?D ! test_idx ! g \<le> ?D ! test_idx ! train_idx"
    by blast
  with r show
    "\<forall>g<?M. group_distance centers test_idx g \<le> group_distance centers test_idx train_idx"
    by (simp add: row)
  from tr r show "train_indices0 = group_members centers train_idx"
    by (simp add: flatnonzero_members)
  from te t show "test_indices0 = group_members centers test_idx"
    by (simp add: flatnonzero_members)
qed

lemma MaxDissimilaritySplit_seed_total:
  assumes "centers \<noteq> []"
  shows "\<exists>test_idx train_idx train_indices0 test_indices0.
           MaxDissimilaritySplit_seed centers =
             Inr (test_idx, train_idx, train_indices0, test_indices0)"
proof -
  let ?M = "n_groups centers" and ?D = "distance_matrix_of centers"
  from assms have M: "0 < ?M" by (simp add: n_groups_def np_unique_eq_Nil)
  have "length (mean_axis0 ?D) = ?M"
    by (simp add: mean_axis0_distance_matrix_of [OF assms])
  with M have "mean_axis0 ?D \<noteq> []" by auto
  from argmax_Inr [OF this] obtain t where t: "argmax (mean_axis0 ?D) = Inr t"
    "t < length (mean_axis0 ?D)"
    by blast
  then have "t < ?M" by (simp add: mean_axis0_distance_matrix_of [OF assms])
  then have "length (?D ! t) = ?M" by (simp add: distance_matrix_of_row)
  with M have "?D ! t \<noteq> []" by auto
  from argmax_Inr [OF this] obtain r where "argmax (?D ! t) = Inr r" by blast
  with t assms show ?thesis by (simp add: MaxDissimilaritySplit_seed_unfold)
qed

lemma group_members_single:
  assumes "n_groups centers = 1"
  shows "group_members centers 0 = [0..<length centers]"
proof -
  have "\<forall>s\<in>set [0..<length centers]. group_indices_of centers ! s = 0"
    using group_indices_of_less [of _ centers] assms by auto
  then show ?thesis
    unfolding group_members_def by (simp only: filter_True)
qed

lemma argsort_single: "length a = 1 \<Longrightarrow> argsort a = [0]"
  by (simp add: argsort_def)

lemma n_groups_example_1: "n_groups [[0], [0], [0], [0]] = 1"
  by (simp add: n_groups_def np_unique_def)






text \<open>
  Claim C9. When the clustering yields a single de-duplicated center, the two anchors
  of MaxDissimilaritySplit coincide and the trial returns every sample index both in
  the train and in the test indices.
\<close>

theorem MaxDissimilaritySplit_single_center:
  assumes "n_groups centers = 1"
  shows "MaxDissimilaritySplit_trial centers n_train =
           Inr ([0..<length centers], [0..<length centers])"
proof -
  from assms have ne: "centers \<noteq> []"
    by (auto simp: n_groups_def np_unique_def)
  from MaxDissimilaritySplit_seed_total [OF ne] obtain t r tr0 te0 where
    seed: "MaxDissimilaritySplit_seed centers = Inr (t, r, tr0, te0)"
    by blast
  from seed_anchors(1,2) [OF seed] assms have t: "t = 0" and r: "r = 0" by simp_all
  from seed_anchors(4,5) [OF seed] t r
  have tr0: "tr0 = [0..<length centers]" and te0: "te0 = [0..<length centers]"
    by (simp_all add: group_members_single [OF assms])
  have "length (distance_matrix_of centers ! 0) = 1"
    using assms by (simp add: distance_matrix_of_row)
  then have srt: "argsort (distance_matrix_of centers ! 0) = [0]"
    by (rule argsort_single)
  show ?thesis
    unfolding MaxDissimilaritySplit_trial_unfold seed
    by (simp add: t r tr0 te0 srt Let_def)
qed

theorem MaxDissimilaritySplit_single_center_witness:
  "n_groups [[0], [0], [0], [0]] = 1 \<and>
   MaxDissimilaritySplit_trial [[0], [0], [0], [0]] 3 = Inr ([0, 1, 2, 3], [0, 1, 2, 3])"
  using MaxDissimilaritySplit_single_center [OF n_groups_example_1, of 3] n_groups_example_1
  by (simp add: upt_conv_Cons)

section \<open>Coverage of the sample indices\<close>

text \<open>
  A trial of PerimeterSplit returns every sample index exactly once. So does a trial
  of MaxDissimilaritySplit whose two anchors differ, and they differ whenever there
  are at least two de-duplicated centers (of one dimension \<open>d\<close>).
\<close>

lemma distinct_members_concat:
  assumes "distinct gs"
  shows "distinct (concat (map (\<lambda>i. filter (\<lambda>s. gi ! s = i) [0..<n]) gs))"
  using assms by (induction gs) auto

lemma sort_eq_upt:
  fixes xs :: "nat list"
  assumes "distinct xs" and "set xs = {0..<n}"
  shows "sort xs = [0..<n]"
  by (rule sorted_distinct_set_unique) (simp_all add: assms)

lemma train_of_remaining_concat:
  assumes "finite R" and "\<forall>g\<in>R. groups_set ! g = g"
  shows "train_of_remaining gi groups_set R =
          concat (map (\<lambda>i. filter (\<lambda>s. gi ! s = i) [0..<length gi]) (sorted_list_of_set R))"
proof -
  have "map (\<lambda>i. flatnonzero_eq gi (groups_set ! i)) (sorted_list_of_set R) =
        map (\<lambda>i. filter (\<lambda>s. gi ! s = i) [0..<length gi]) (sorted_list_of_set R)"
  proof (rule map_cong [OF refl])
    fix i assume "i \<in> set (sorted_list_of_set R)"
    then have "i \<in> R" using assms(1) by simp
    then have "groups_set ! i = i" using assms(2) by simp
    then show "flatnonzero_eq gi (groups_set ! i) = filter (\<lambda>s. gi ! s = i) [0..<length gi]"
      by (simp add: flatnonzero_eq_def)
  qed
  then show ?thesis by (simp only: train_of_remaining_def)
qed

lemma distinct_train_of_remaining:
  assumes "finite R" and "\<forall>g\<in>R. groups_set ! g = g"
  shows "distinct (train_of_remaining gi groups_set R)"
  unfolding train_of_remaining_concat [OF assms]
  by (rule distinct_members_concat) simp

lemma perimeter_loop_covers_init:
  assumes ok: "\<forall>pos\<in>set ps. fst tril ! pos < M \<and> snd tril ! pos < fst tril ! pos"
    and loop: "perimeter_loop gi [0..<M] tril n_test ps ([], {0..<M}) = (test_indices, R)"
  shows "distinct test_indices"
    "set test_indices = {s. s < length gi \<and> gi ! s < M \<and> gi ! s \<notin> R}"
    "R \<subseteq> {0..<M}"
proof -
  have gs: "\<forall>g<M. [0..<M] ! g = g" by simp
  have d0: "distinct ([]::nat list)" by simp
  have s0: "set ([]::nat list) = {s. s < length gi \<and> gi ! s < M \<and> gi ! s \<notin> {0..<M}}"
    by simp
  from perimeter_loop_covers [OF ok gs loop d0 s0]
  show "distinct test_indices"
    "set test_indices = {s. s < length gi \<and> gi ! s < M \<and> gi ! s \<notin> R}"
    by blast+
  from ok have ok': "\<forall>pos\<in>set ps. fst tril ! pos < M \<and> snd tril ! pos < M"
    by auto
  have "\<forall>t\<in>set ([]::nat list). gi ! t \<notin> {0..<M}" by simp
  from perimeter_loop_separates [OF ok' gs loop this] show "R \<subseteq> {0..<M}" by blast
qed

lemma PerimeterSplit_covers:
  assumes "PerimeterSplit_trial centers n_test = Inr (train_indices, test_indices)"
  shows "sort (train_indices @ test_indices) = [0..<length centers]"
proof -
  let ?gi = "group_indices_of centers" and ?M = "n_groups centers" and ?N = "length centers"
  from PerimeterSplit_trial_run [OF assms] obtain tril ps R where
    ok: "\<forall>pos\<in>set ps. fst tril ! pos < ?M \<and> snd tril ! pos < fst tril ! pos"
    and loop: "perimeter_loop ?gi [0..<?M] tril n_test ps ([], {0..<?M}) = (test_indices, R)"
    and train: "train_indices = train_of_remaining ?gi [0..<?M] R"
    by blast
  have len: "length ?gi = ?N" by (rule length_group_indices_of)
  note c = perimeter_loop_covers_init [OF ok loop]
  have dte: "distinct test_indices" by (rule c(1))
  have ste: "set test_indices = {s. s < ?N \<and> ?gi ! s < ?M \<and> ?gi ! s \<notin> R}"
    using c(2) unfolding len .
  have sub: "R \<subseteq> {0..<?M}" by (rule c(3))
  from sub have fin: "finite R" by (rule finite_subset) simp
  have gR: "\<forall>g\<in>R. [0..<?M] ! g = g"
  proof
    fix g assume "g \<in> R"
    with sub have "g < ?M" by auto
    then show "[0..<?M] ! g = g" by simp
  qed
  have str: "set train_indices = {s. s < ?N \<and> ?gi ! s \<in> R}"
    using set_train_of_remaining [OF fin gR, of ?gi] unfolding train len .
  have dtr: "distinct train_indices"
    unfolding train by (rule distinct_train_of_remaining [OF fin gR])
  have "set train_indices \<inter> set test_indices = {}"
    unfolding str ste by blast
  with dtr dte have d: "distinct (train_indices @ test_indices)"
    by simp
  have lt: "\<forall>s<?N. ?gi ! s < ?M"
    using group_indices_of_less [of _ centers] by blast
  have "set train_indices \<union> set test_indices = {s. s < ?N}"
    unfolding str ste using lt by blast
  then have "set (train_indices @ test_indices) = {0..<?N}"
    unfolding set_append atLeast0LessThan lessThan_def .
  with d show ?thesis by (rule sort_eq_upt)
qed

lemma max_dissimilarity_loop_distinct:
  assumes "distinct groups" and "\<forall>g\<in>set groups. g < M"
    and "\<forall>g<M. groups_set ! g = g"
    and "distinct train" and "\<forall>s\<in>set train. s < length gi \<and> gi ! s \<in> G"
    and "G \<inter> set groups \<subseteq> {r, t}" and "t \<notin> G"
  shows "distinct (max_dissimilarity_loop gi groups_set n_train r t groups train) \<and>
    (\<forall>s\<in>set (max_dissimilarity_loop gi groups_set n_train r t groups train).
        s < length gi \<and> gi ! s \<noteq> t)"
  using assms
proof (induction groups arbitrary: train G)
  case Nil
  then show ?case by auto
next
  case (Cons g groups)
  have rest: "distinct groups" "\<forall>g\<in>set groups. g < M"
    using Cons.prems(1,2) by simp_all
  have Gr: "G \<inter> set groups \<subseteq> {r, t}" using Cons.prems(6) by auto
  show ?case
  proof (cases "length train \<ge> n_train")
    case True
    with Cons.prems(4,5,7) show ?thesis by auto
  next
    case False
    show ?thesis
    proof (cases "g = r \<or> g = t")
      case True
      with False Cons.IH [OF rest Cons.prems(3,4,5) Gr Cons.prems(7)]
      show ?thesis by simp
    next
      case add: False
      have g: "groups_set ! g = g" using Cons.prems(2,3) by simp
      have gG: "g \<notin> G" using Cons.prems(6) add by auto
      let ?train = "train @ flatnonzero_eq gi g"
      have A: "set (flatnonzero_eq gi g) = {s. s < length gi \<and> gi ! s = g}"
        by (auto simp: flatnonzero_eq_def)
      have dA: "distinct (flatnonzero_eq gi g)"
        by (simp add: flatnonzero_eq_def)
      have "set train \<inter> set (flatnonzero_eq gi g) = {}"
        unfolding A using Cons.prems(5) gG by blast
      with Cons.prems(4) dA have d: "distinct ?train"
        by simp
      have s: "\<forall>s\<in>set ?train. s < length gi \<and> gi ! s \<in> insert g G"
        unfolding set_append A using Cons.prems(5) by blast
      have G': "insert g G \<inter> set groups \<subseteq> {r, t}"
        using Gr Cons.prems(1) by auto
      have t: "t \<notin> insert g G" using add Cons.prems(7) by simp
      from Cons.IH [OF rest Cons.prems(3) d s G' t] False add g
      show ?thesis by simp
    qed
  qed
qed

lemma sum_squares_eq_0:
  fixes a b :: "real list"
  assumes "length a = length b" and "(\<Sum>(x, y)\<leftarrow>zip a b. (x - y)\<^sup>2) = 0"
  shows "a = b"
  using assms
proof (induction a b rule: list_induct2)
  case Nil
  then show ?case by simp
next
  case (Cons x xs y ys)
  have nn: "0 \<le> (\<Sum>(x, y)\<leftarrow>zip xs ys. (x - y)\<^sup>2)"
    by (rule sum_list_nonneg) auto
  have sq: "0 \<le> (x - y)\<^sup>2" by simp
  from Cons.prems have "(x - y)\<^sup>2 + (\<Sum>(x, y)\<leftarrow>zip xs ys. (x - y)\<^sup>2) = 0" by simp
  with nn sq have "(x - y)\<^sup>2 = 0" "(\<Sum>(x, y)\<leftarrow>zip xs ys. (x - y)\<^sup>2) = 0"
    by linarith+
  with Cons.IH show ?case by simp
qed

lemma euclidean_pos:
  assumes "length a = length b" and "a \<noteq> b"
  shows "0 < euclidean a b"
proof -
  have nn: "0 \<le> (\<Sum>(x, y)\<leftarrow>zip a b. (x - y)\<^sup>2)"
    by (rule sum_list_nonneg) auto
  have "(\<Sum>(x, y)\<leftarrow>zip a b. (x - y)\<^sup>2) \<noteq> 0"
    using sum_squares_eq_0 [OF assms(1)] assms(2) by blast
  with nn have "0 < (\<Sum>(x, y)\<leftarrow>zip a b. (x - y)\<^sup>2)" by simp
  then show ?thesis by (simp add: euclidean_def)
qed

lemma anchors_differ:
  assumes seed: "MaxDissimilaritySplit_seed centers =
             Inr (test_idx, train_idx, train_indices0, test_indices0)"
    and two: "2 \<le> n_groups centers"
    and dim: "\<forall>c\<in>set centers. length c = d"
  shows "train_idx \<noteq> test_idx"
proof
  assume eq: "train_idx = test_idx"
  let ?u = "np_unique centers"
  from seed_anchors(1) [OF seed] have t: "test_idx < length ?u"
    by (simp add: n_groups_def)
  define g :: nat where "g = (if test_idx = 0 then 1 else 0)"
  have g: "g < length ?u" "g \<noteq> test_idx"
    using two by (auto simp: g_def n_groups_def)
  have "?u ! test_idx \<noteq> ?u ! g"
    using g t distinct_np_unique [of centers] by (simp add: nth_eq_iff_index_eq)
  moreover have "?u ! test_idx \<in> set centers" "?u ! g \<in> set centers"
    using t g(1) set_np_unique [of centers] nth_mem by blast+
  then have "length (?u ! test_idx) = length (?u ! g)" using dim by simp
  ultimately have "0 < group_distance centers test_idx g"
    unfolding group_distance_def by (intro euclidean_pos) simp_all
  moreover have "group_distance centers test_idx g \<le> group_distance centers test_idx train_idx"
    using seed_anchors(3) [OF seed] g(1) by (simp add: n_groups_def)
  moreover have "group_distance centers test_idx train_idx = 0"
    by (simp add: eq group_distance_def euclidean_self)
  ultimately show False by simp
qed

lemma distinct_argsort: "distinct (argsort a)"
  by (simp add: argsort_def)

lemma MaxDissimilaritySplit_covers:
  assumes trial: "MaxDissimilaritySplit_trial centers n_train = Inr (train_indices, test_indices)"
    and seed: "MaxDissimilaritySplit_seed centers =
             Inr (test_idx, train_idx, train_indices0, test_indices0)"
    and ne: "train_idx \<noteq> test_idx"
  shows "sort (train_indices @ test_indices) = [0..<length centers]"
proof -
  let ?gi = "group_indices_of centers" and ?M = "n_groups centers" and ?N = "length centers"
  let ?groups = "argsort (distance_matrix_of centers ! train_idx)"
  let ?train = "max_dissimilarity_loop ?gi [0..<?M] n_train train_idx test_idx ?groups
                  train_indices0"
  have len: "length ?gi = ?N" by (rule length_group_indices_of)
  note a = seed_anchors [OF seed]
  have both: "?train = train_indices \<and>
      test_indices0 @ sorted_list_of_set (set [0..<?N] - set ?train - set test_indices0) =
        test_indices"
    using trial unfolding MaxDissimilaritySplit_trial_unfold seed by (auto simp: Let_def)
  from both have tr: "train_indices = ?train" by blast
  from both have te: "test_indices =
      test_indices0 @ sorted_list_of_set (set [0..<?N] - set ?train - set test_indices0)"
    by blast
  have gM: "\<forall>g\<in>set ?groups. g < ?M"
    using a(2) by (simp add: set_argsort distance_matrix_of_row)
  have gs: "\<forall>g<?M. [0..<?M] ! g = g" by simp
  have d0: "distinct train_indices0"
    unfolding a(4) group_members_def by simp
  have s0: "\<forall>s\<in>set train_indices0. s < length ?gi \<and> ?gi ! s \<in> {train_idx}"
    unfolding a(4) len by (simp add: set_group_members)
  have G: "{train_idx} \<inter> set ?groups \<subseteq> {train_idx, test_idx}" by blast
  have tG: "test_idx \<notin> {train_idx}" using ne by simp
  from max_dissimilarity_loop_distinct [OF distinct_argsort gM gs d0 s0 G tG]
  have dtr: "distinct ?train" and str: "\<forall>s\<in>set ?train. s < ?N \<and> ?gi ! s \<noteq> test_idx"
    unfolding len by blast+
  have dte0: "distinct test_indices0"
    unfolding a(5) group_members_def by simp
  have ste0: "set test_indices0 = {s. s < ?N \<and> ?gi ! s = test_idx}"
    unfolding a(5) by (rule set_group_members)
  define tr' where "tr' = ?train"
  define rem where "rem = sorted_list_of_set (set [0..<?N] - set tr' - set test_indices0)"
  have drem: "distinct rem" by (simp add: rem_def)
  have srem: "set rem = {s. s < ?N} - set tr' - set test_indices0"
    by (simp add: rem_def lessThan_def [symmetric] atLeast0LessThan)
  have dtr': "distinct tr'" using dtr by (simp only: tr'_def)
  have str': "\<forall>s\<in>set tr'. s < ?N \<and> ?gi ! s \<noteq> test_idx"
    using str by (simp only: tr'_def)
  have i1: "set tr' \<inter> set test_indices0 = {}"
    unfolding ste0 using str' by blast
  have i2: "set tr' \<inter> set rem = {}" unfolding srem by blast
  have i3: "set test_indices0 \<inter> set rem = {}" unfolding srem by blast
  have "distinct (test_indices0 @ rem)"
    using dte0 drem i3 by simp
  moreover have "set tr' \<inter> set (test_indices0 @ rem) = {}"
    using i1 i2 by (simp add: Int_Un_distrib)
  ultimately have d: "distinct (tr' @ test_indices0 @ rem)"
    using dtr' by simp
  have "set tr' \<subseteq> {s. s < ?N}" using str' by blast
  moreover have "set test_indices0 \<subseteq> {s. s < ?N}" unfolding ste0 by blast
  ultimately have "set tr' \<union> (set test_indices0 \<union> set rem) = {s. s < ?N}"
    unfolding srem by blast
  then have "set (tr' @ test_indices0 @ rem) = {0..<?N}"
    unfolding set_append atLeast0LessThan lessThan_def .
  with d have "sort (tr' @ test_indices0 @ rem) = [0..<?N]"
    by (rule sort_eq_upt)
  then show ?thesis unfolding tr te rem_def tr'_def .
qed

text \<open>
  Claim C1 asks that the train and the test indices of every trial, sorted together,
  are the range of all sample indices without duplicates. MaxDissimilaritySplit breaks
  it on three samples with one cluster center and the train size 2: the two anchors
  are the same group and every index is returned twice.
\<close>

theorem MaxDissimilaritySplit_coverage_fails:
  "MaxDissimilaritySplit_trial [[2], [2], [2]] 2 = Inr ([0, 1, 2], [0, 1, 2]) \<and>
   sort ([0, 1, 2] @ [0, 1, 2 :: nat]) \<noteq> [0..<3]"
proof -
  have "MaxDissimilaritySplit_trial [[2], [2], [2]] 2 = Inr ([0, 1, 2], [0, 1, 2])"
    by (simp add: MaxDissimilaritySplit_trial_def MaxDissimilaritySplit_seed_def
        np_unique_inverse_def np_unique_def pairwise_distances_def euclidean_1d argmax_def
        mean_axis0_def mean_def flatnonzero_eq_def argsort_def Let_def atLeast0_lessThan_Suc)
  moreover have "sort ([0, 1, 2] @ [0, 1, 2 :: nat]) \<noteq> [0..<3]"
    by (simp add: upt_conv_Cons)
  ultimately show ?thesis by simp
qed

section \<open>Properties of MOODSplitter\<close>

lemma fit_stored:
  assumes "attr_downstream_distances self = Some d"
  shows "fit self X X_deployment =
     (case characterize_splitters self X (attr_splitters self) of
        Inl e \<Rightarrow> (self, Some e)
      | Inr split_chars \<Rightarrow>
          (case best split_chars of
             Inl e \<Rightarrow> (self, Some e)
           | Inr chosen \<Rightarrow>
               (self\<lparr>attr_split_chars := Some split_chars,
                     attr_prescribed_splitter_label := Some (label chosen)\<rparr>, None)))"
  using assms by (simp add: fit_def)

lemma fit_not_stored_fails:
  assumes "attr_downstream_distances self = None"
    and "compute_distance self X_deployment X = Inl e"
  shows "fit self X X_deployment = (self, Some e)"
  using assms by (simp add: fit_def)

lemma fit_not_stored:
  assumes "attr_downstream_distances self = None"
    and "compute_distance self X_deployment X = Inr d"
  shows "fit self X X_deployment =
           fit (self\<lparr>attr_downstream_distances := Some d\<rparr>) X X_deployment"
  using assms by (simp add: fit_def)

lemma fit_keeps_stored:
  assumes "attr_downstream_distances self = Some d"
  shows "attr_downstream_distances (fst (fit self X X_deployment)) = Some d"
  using assms by (simp add: fit_stored split: sum.splits)





lemma MOODSplitter_init_unfitted:
  assumes "MOODSplitter_init splitters downstream_distances metric k = Inr self"
  shows "\<not> fitted self" "attr_split_chars self = None"
  using assms by (auto simp: MOODSplitter_init_def fitted_def Let_def split: if_splits)

text \<open>
  The example, evaluated: the deployment samples give the downstream distances
  \<open>[1/2, 2]\<close>; the only split has one test sample, hence one distance, which
  \<^verbatim>\<open>gaussian_kde\<close> refuses; \<open>fit\<close> raises ValueError.
\<close>

lemma example_mood_init:
  "MOODSplitter_init [(''Maximum Dissimilarity'', example_splitter)] None (\<lambda>x y. \<bar>x - y\<bar>) 1
     = Inr example_mood"
  by (simp add: MOODSplitter_init_def example_mood_def example_splitter_def)


lemma example_compute_distance:
  "compute_distance example_mood (Some [1 / 2, 5]) [0, 1, 3] = Inr [1 / 2, 2]"
  by (simp add: compute_distance_def kneighbors_def example_mood_def mean_def)






text \<open>
  Claim C10. \<open>fit\<close> computes and stores the downstream distances only when none are
  stored. Stored distances stay as they are, and the result of \<open>fit\<close> does not depend
  on \<open>X_deployment\<close> then. Without stored distances, \<open>fit\<close> stores what
  \<open>compute_distance\<close> returns, or raises its exception and changes nothing.
\<close>

theorem fit_downstream_distances:
  "(attr_downstream_distances self = Some d \<longrightarrow>
      attr_downstream_distances (fst (fit self X X_deployment)) = Some d \<and>
      fit self X X_deployment = fit self X X_deployment') \<and>
   (attr_downstream_distances self = None \<longrightarrow>
      compute_distance self X_deployment X = Inr d \<longrightarrow>
      attr_downstream_distances (fst (fit self X X_deployment)) = Some d) \<and>
   (attr_downstream_distances self = None \<longrightarrow>
      compute_distance self X_deployment X = Inl e \<longrightarrow>
      fit self X X_deployment = (self, Some e))"
proof (intro conjI impI)
  assume s: "attr_downstream_distances self = Some d"
  show "attr_downstream_distances (fst (fit self X X_deployment)) = Some d"
    by (rule fit_keeps_stored [OF s])
  show "fit self X X_deployment = fit self X X_deployment'"
    by (simp add: fit_stored [OF s])
next
  assume n: "attr_downstream_distances self = None"
    and c: "compute_distance self X_deployment X = Inr d"
  have "attr_downstream_distances (self\<lparr>attr_downstream_distances := Some d\<rparr>) = Some d"
    by simp
  from fit_keeps_stored [OF this]
  show "attr_downstream_distances (fst (fit self X X_deployment)) = Some d"
    by (simp add: fit_not_stored [OF n c])
next
  assume "attr_downstream_distances self = None"
    and "compute_distance self X_deployment X = Inl e"
  then show "fit self X X_deployment = (self, Some e)"
    by (rule fit_not_stored_fails)
qed

theorem fit_downstream_distances_witness:
  "attr_downstream_distances (example_mood\<lparr>attr_downstream_distances := Some [1, 2, 4]\<rparr>)
     = Some [1, 2, 4] \<and>
   attr_downstream_distances
     (fst (fit (example_mood\<lparr>attr_downstream_distances := Some [1, 2, 4]\<rparr>) [0, 1, 3]
             (Some [1 / 2, 5]))) = Some [1, 2, 4] \<and>
   fit (example_mood\<lparr>attr_downstream_distances := Some [1, 2, 4]\<rparr>) [0, 1, 3] (Some [1 / 2, 5])
     = fit (example_mood\<lparr>attr_downstream_distances := Some [1, 2, 4]\<rparr>) [0, 1, 3] None \<and>
   attr_downstream_distances example_mood = None \<and>
   compute_distance example_mood (Some [1 / 2, 5]) [0, 1, 3] = Inr [1 / 2, 2] \<and>
   attr_downstream_distances (fst (fit example_mood [0, 1, 3] (Some [1 / 2, 5])))
     = Some [1 / 2, 2]"
proof -
  have s: "attr_downstream_distances (example_mood\<lparr>attr_downstream_distances := Some [1, 2, 4]\<rparr>)
     = Some [1, 2, 4]"
    by simp
  have n: "attr_downstream_distances example_mood = None"
    by (simp add: example_mood_def)
  from fit_downstream_distances
    [of "example_mood\<lparr>attr_downstream_distances := Some [1, 2, 4]\<rparr>" "[1, 2, 4]" "[0, 1, 3]"
       "Some [1 / 2, 5]" None]
    fit_downstream_distances
    [of example_mood "[1 / 2, 2]" "[0, 1, 3]" "Some [1 / 2, 5]"]
    s n example_compute_distance
  show ?thesis by blast
qed

section \<open>Properties of the score\<close>

lemma those_map_Some: "those (map (\<lambda>x. Some (f x)) xs) = Some (map f xs)"
  by (induction xs) simp_all

lemma sum_list_pos:
  fixes xs :: "real list"
  shows "xs \<noteq> [] \<Longrightarrow> \<forall>x\<in>set xs. 0 < x \<Longrightarrow> 0 < sum_list xs"
proof (induction xs)
  case Nil
  then show ?case by simp
next
  case (Cons x xs)
  show ?case
  proof (cases "xs = []")
    case True
    with Cons.prems show ?thesis by simp
  next
    case False
    with Cons have "0 < sum_list xs" by simp
    with Cons.prems show ?thesis by simp
  qed
qed


lemma zip_swap: "zip q p = map (\<lambda>(x, y). (y, x)) (zip p q)"
  by (induction p arbitrary: q) (auto simp: zip_Cons1 split: list.splits)

lemma pointwise_mean_commute: "pointwise_mean p q = pointwise_mean q p"
proof -
  have "map (\<lambda>(x, y). (x + y) / 2) (zip q p) = map (\<lambda>(x, y). (x + y) / 2) (zip p q)"
    unfolding zip_swap [of q p] map_map
    by (rule map_cong) (auto simp: add.commute)
  then show ?thesis by (simp add: pointwise_mean_def)
qed

lemma jensenshannon_commute: "jensenshannon p q b = jensenshannon q p b"
proof -
  have m: "map (\<lambda>(x, y). (x + y) / 2) (zip p' q') = map (\<lambda>(x, y). (x + y) / 2) (zip q' p')"
    for p' q' :: "real list"
    using pointwise_mean_commute [of p' q'] by (simp add: pointwise_mean_def)
  show ?thesis
    unfolding jensenshannon_def Let_def
      m [of "map (\<lambda>x. x / sum_list q) q" "map (\<lambda>x. x / sum_list p) p"]
    by (auto simp: add.commute split: option.splits)
qed

lemma kl_sum_self: "kl_sum p (pointwise_mean p p) = 0"
proof -
  have "(\<Sum>(x, y)\<leftarrow>zip p (map (\<lambda>(x, y). (x + y) / 2) (zip p p)). x * ln (x / y)) = 0"
    by (induction p) simp_all
  then show ?thesis by (simp add: kl_sum_def pointwise_mean_def)
qed

lemma kl_divergence2_kl_sum: "kl_divergence2 P M = kl_sum P M / ln 2"
proof -
  have "(\<lambda>(x, y). if x = 0 then 0 else x * log 2 (x / y)) =
        (\<lambda>z. (case z of (x, y) \<Rightarrow> x * ln (x / y)) * (1 / ln 2))"
    by (auto simp: fun_eq_iff log_def)
  then show ?thesis
    unfolding kl_divergence2_def kl_sum_def
    by (simp only: sum_list_mult_const) simp
qed

lemma js_divergence_kl_sum:
  "js_divergence P Q =
     (kl_sum P (pointwise_mean P Q) + kl_sum Q (pointwise_mean P Q)) / ln 2 / 2"
  by (simp add: js_divergence_def kl_divergence2_kl_sum add_divide_distrib)












lemma shared_grid_linspace:
  "shared_grid A B n = linspace (Min (set (A @ B))) (Max (set (A @ B))) n"
  by (simp add: shared_grid_def linspace_def)


lemma valid_sample_example_1: "valid_sample [0, 1]"
  by (simp add: valid_sample_def)










lemma density_vector_sum: "density_vector p \<Longrightarrow> \<not> (p \<noteq> [] \<and> sum_list p = 0)"
  by (auto simp: density_vector_def)

lemma normalized_nonneg:
  assumes "density_vector p"
  shows "\<forall>x\<in>set (normalized p). 0 \<le> x"
proof (cases "p = []")
  case True
  then show ?thesis by (simp add: normalized_def)
next
  case False
  with assms have "0 < sum_list p" "\<forall>x\<in>set p. 0 \<le> x"
    by (simp_all add: density_vector_def)
  then show ?thesis by (simp add: normalized_def)
qed


lemma rel_entr_mean:
  assumes "0 \<le> x" and "0 \<le> y"
  shows "rel_entr x ((x + y) / 2) = Some (x * ln (x / ((x + y) / 2)))"
    "rel_entr y ((x + y) / 2) = Some (y * ln (y / ((x + y) / 2)))"
  using assms by (auto simp: rel_entr_def)

lemma those_rel_entr_left:
  assumes "\<forall>x\<in>set P. 0 \<le> x" and "\<forall>y\<in>set Q. 0 \<le> y"
  shows "those (map (\<lambda>(x, y). rel_entr x y) (zip P (map (\<lambda>(x, y). (x + y) / 2) (zip P Q)))) =
     Some (map (\<lambda>(x, y). x * ln (x / y)) (zip P (map (\<lambda>(x, y). (x + y) / 2) (zip P Q))))"
  using assms
proof (induction P arbitrary: Q)
  case Nil
  show ?case by simp
next
  case (Cons x P)
  show ?case
  proof (cases Q)
    case Nil
    then show ?thesis by simp
  next
    case (Cons y Q')
    with Cons.prems have xy: "0 \<le> x" "0 \<le> y" and P: "\<forall>x\<in>set P. 0 \<le> x"
      and Q': "\<forall>y\<in>set Q'. 0 \<le> y"
      by simp_all
    from Cons.IH [OF P Q'] rel_entr_mean(1) [OF xy] show ?thesis
      by (simp add: Cons)
  qed
qed

lemma those_rel_entr_right:
  assumes "\<forall>x\<in>set P. 0 \<le> x" and "\<forall>y\<in>set Q. 0 \<le> y"
  shows "those (map (\<lambda>(x, y). rel_entr x y) (zip Q (map (\<lambda>(x, y). (x + y) / 2) (zip P Q)))) =
     Some (map (\<lambda>(x, y). x * ln (x / y)) (zip Q (map (\<lambda>(x, y). (x + y) / 2) (zip P Q))))"
  using assms
proof (induction P arbitrary: Q)
  case Nil
  show ?case by simp
next
  case (Cons x P)
  show ?case
  proof (cases Q)
    case Nil
    then show ?thesis by simp
  next
    case (Cons y Q')
    with Cons.prems have xy: "0 \<le> x" "0 \<le> y" and P: "\<forall>x\<in>set P. 0 \<le> x"
      and Q': "\<forall>y\<in>set Q'. 0 \<le> y"
      by simp_all
    from Cons.IH [OF P Q'] rel_entr_mean(2) [OF xy] show ?thesis
      by (simp add: Cons)
  qed
qed

lemma jensenshannon_density:
  assumes p: "density_vector p" and q: "density_vector q"
  shows "jensenshannon p q b =
     Some (sqrt ((kl_sum (normalized p) (pointwise_mean (normalized p) (normalized q)) +
                  kl_sum (normalized q) (pointwise_mean (normalized p) (normalized q)))
                 / ln b / 2))"
proof -
  note P = normalized_nonneg [OF p] and Q = normalized_nonneg [OF q]
  note sp = density_vector_sum [OF p] and sq = density_vector_sum [OF q]
  note l = those_rel_entr_left [OF P Q] and r = those_rel_entr_right [OF P Q]
  show ?thesis
    using sp sq l r
    unfolding jensenshannon_def Let_def normalized_def pointwise_mean_def kl_sum_def
    by simp
qed

lemma jensenshannon_self:
  assumes "density_vector p"
  shows "jensenshannon p p b = Some 0"
  by (simp add: jensenshannon_density [OF assms assms] kl_sum_self)

lemma jensenshannon_zero_sum:
  assumes "q \<noteq> []" and "sum_list q = 0"
  shows "jensenshannon p q b = None" "jensenshannon q p b = None"
  using assms by (simp_all add: jensenshannon_def)

lemma sum_list_all_zero:
  fixes f :: "'a \<Rightarrow> real"
  assumes "\<forall>x\<in>set xs. f x = 0"
  shows "sum_list (map f xs) = 0"
  using assms by (induction xs) simp_all

lemma score_js_distance:
  assumes A: "kde A = Inr pdf_A" and B: "kde B = Inr pdf_B"
    and p: "density_vector (map pdf_A (shared_grid A B n))"
    and q: "density_vector (map pdf_B (shared_grid A B n))"
  shows "score_representativeness kde A B n =
           Inr (1 - sqrt (js_divergence (normalized (map pdf_A (shared_grid A B n)))
                                        (normalized (map pdf_B (shared_grid A B n)))))"
proof -
  let ?p = "map pdf_A (shared_grid A B n)" and ?q = "map pdf_B (shared_grid A B n)"
  have "jensenshannon ?p ?q 2 = Some (sqrt (js_divergence (normalized ?p) (normalized ?q)))"
    by (simp only: jensenshannon_density [OF p q] js_divergence_kl_sum)
  then show ?thesis
    by (simp add: score_representativeness_def A B Let_def shared_grid_linspace)
qed


lemma score_not_a_number:
  assumes A: "kde A = Inr pdf_A" and B: "kde B = Inr pdf_B" and n: "0 < n"
    and z: "\<forall>x\<in>set (shared_grid A B n). pdf_B x = 0"
  shows "score_representativeness kde A B n = Inl FloatingPointError"
    "score_representativeness kde B A n = Inl FloatingPointError"
proof -
  let ?q = "map pdf_B (shared_grid A B n)"
  have ne: "?q \<noteq> []" using n by (simp add: shared_grid_def)
  have s: "sum_list ?q = 0" by (rule sum_list_all_zero [OF z])
  have g: "shared_grid B A n = shared_grid A B n"
    by (simp add: shared_grid_def Un_commute)
  show "score_representativeness kde A B n = Inl FloatingPointError"
    unfolding score_representativeness_def A B Let_def shared_grid_linspace [symmetric]
    by (simp add: jensenshannon_zero_sum(1) [OF ne s])
  show "score_representativeness kde B A n = Inl FloatingPointError"
    unfolding score_representativeness_def A B Let_def shared_grid_linspace [symmetric] g
    by (simp add: jensenshannon_zero_sum(2) [OF ne s])
qed

lemma score_commute_number:
  assumes "score_representativeness kde A B n = Inr v"
  shows "score_representativeness kde B A n = Inr v"
proof -
  from assms obtain pdf_B where B: "kde B = Inr pdf_B"
    by (cases "kde B") (simp_all add: score_representativeness_def)
  from assms B obtain pdf_A where A: "kde A = Inr pdf_A"
    by (cases "kde A") (simp_all add: score_representativeness_def)
  have s: "set (B @ A) = set (A @ B)" by auto
  from assms show ?thesis
    unfolding score_representativeness_def A B Let_def s
    by (simp add: jensenshannon_commute [of "map pdf_B _"])
qed

text \<open>
  The estimator \<open>gaussian_kde\<close>: where it underflows and where it does not, and its
  densities for the samples of the examples.
\<close>

lemma underflow_threshold: "(1 / 2 :: real) ^ 1075 < 1 / 3 ^ 500"
  by (simp add: power_divide)

lemma underflow_big: "(1 / 3 ^ 500 :: real) \<le> \<bar>x\<bar> \<Longrightarrow> underflow x = x"
  using underflow_threshold by (simp add: underflow_def)

lemma underflow_0: "underflow 0 = 0"
  by (simp add: underflow_def)

lemma underflow_nonneg: "0 \<le> x \<Longrightarrow> 0 \<le> underflow x"
  by (simp add: underflow_def)

lemma exp_minus_one_le_half: "exp (- 1 :: real) \<le> 1 / 2"
proof -
  have "1 + 1 \<le> exp (1 :: real)" by (rule exp_ge_add_one_self)
  then have "2 \<le> exp (1 :: real)" by simp
  then show ?thesis by (simp add: exp_minus field_simps)
qed

lemma exp_underflows:
  fixes e :: real
  assumes "1075 \<le> e"
  shows "underflow (exp (- e)) = 0"
proof -
  have "exp (- e) \<le> exp (- 1075 :: real)" using assms by simp
  also have "exp (- 1075 :: real) = exp (real 1075 * (- 1))" by simp
  also have "\<dots> = exp (- 1) ^ 1075" by (rule exp_of_nat_mult)
  also have "\<dots> \<le> (1 / 2) ^ 1075"
    by (rule power_mono [OF exp_minus_one_le_half]) simp
  finally have "exp (- e) \<le> (1 / 2) ^ 1075" .
  then show ?thesis by (simp add: underflow_def)
qed

lemma exp_no_underflow:
  fixes e :: real
  assumes "e \<le> 500"
  shows "underflow (exp (- e)) = exp (- e)"
proof -
  have "exp e \<le> exp (500 :: real)" using assms by simp
  also have "exp (500 :: real) = exp (real 500 * 1)" by simp
  also have "\<dots> = exp 1 ^ 500" by (rule exp_of_nat_mult)
  also have "\<dots> \<le> 3 ^ 500"
    by (rule power_mono [OF exp_le]) simp
  finally have "exp e \<le> 3 ^ 500" .
  then have "1 / 3 ^ 500 \<le> 1 / exp e"
    by (intro divide_left_mono) simp_all
  then have "1 / 3 ^ 500 \<le> \<bar>exp (- e)\<bar>" by (simp add: exp_minus field_simps)
  then show ?thesis by (rule underflow_big)
qed

lemma kernel_regular:
  fixes c d :: real
  assumes "0 < c" and "d\<^sup>2 \<le> 1000 * c"
  shows "underflow (exp (- (d\<^sup>2) / (2 * c))) = exp (- (d\<^sup>2) / (2 * c))"
proof -
  have "d\<^sup>2 / (2 * c) \<le> 500" using assms by (simp add: field_simps)
  from exp_no_underflow [OF this] show ?thesis by simp
qed

lemma kernel_underflows:
  fixes c d :: real
  assumes "0 < c" and "2150 * c \<le> d\<^sup>2"
  shows "underflow (exp (- (d\<^sup>2) / (2 * c))) = 0"
proof -
  have "1075 \<le> d\<^sup>2 / (2 * c)" using assms by (simp add: field_simps)
  from exp_underflows [OF this] show ?thesis by simp
qed

lemma kde_evaluate_regular:
  assumes "0 < c" and "\<forall>xi\<in>set a. (x - xi)\<^sup>2 \<le> 1000 * c"
  shows "kde_evaluate a c x =
     (\<Sum>xi\<leftarrow>a. exp (- ((x - xi)\<^sup>2) / (2 * c)) / real (length a)) / sqrt (2 * pi * c)"
proof -
  have "map (\<lambda>xi. underflow (exp (- ((x - xi)\<^sup>2) / (2 * c))) / real (length a)) a =
        map (\<lambda>xi. exp (- ((x - xi)\<^sup>2) / (2 * c)) / real (length a)) a"
    by (rule map_cong [OF refl]) (simp only: kernel_regular [OF assms(1)] assms(2))
  then show ?thesis by (simp only: kde_evaluate_def)
qed

lemma kde_evaluate_zero:
  assumes "0 < c" and "\<forall>xi\<in>set a. 2150 * c \<le> (x - xi)\<^sup>2"
  shows "kde_evaluate a c x = 0"
proof -
  have "\<forall>xi\<in>set a. underflow (exp (- ((x - xi)\<^sup>2) / (2 * c))) / real (length a) = 0"
    using kernel_underflows [OF assms(1)] assms(2) by simp
  from sum_list_all_zero [OF this] show ?thesis by (simp only: kde_evaluate_def) 
qed

lemma scotts_factor_bounds:
  assumes "1 \<le> n"
  shows "1 / real n \<le> scotts_factor n" "scotts_factor n \<le> 1" "0 < scotts_factor n"
proof -
  have n: "1 \<le> real n" using assms by simp
  have "real n powr (- 1) \<le> real n powr (- 1 / 5)"
    by (rule powr_mono [OF _ n]) simp
  then show "1 / real n \<le> scotts_factor n"
    using n by (simp add: scotts_factor_def powr_minus_divide)
  have "real n powr (- 1 / 5) \<le> real n powr 0"
    by (rule powr_mono [OF _ n]) simp
  then show "scotts_factor n \<le> 1" using n by (simp add: scotts_factor_def)
  show "0 < scotts_factor n" using n by (simp add: scotts_factor_def)
qed

lemma gaussian_kde_bounds:
  assumes len: "2 \<le> length a" and lo: "1 / 3 ^ 500 \<le> np_cov a / (real (length a))\<^sup>2"
  shows "\<exists>c. 0 < c \<and> np_cov a / (real (length a))\<^sup>2 \<le> c \<and> c \<le> np_cov a \<and>
              gaussian_kde a = Inr (kde_evaluate a c)"
proof -
  let ?n = "real (length a)" and ?f = "scotts_factor (length a)"
  let ?c = "np_cov a * ?f\<^sup>2"
  have n: "0 < ?n" using len by auto
  have "(0 :: real) < 1 / 3 ^ 500" by simp
  from this lo have "0 < np_cov a / ?n\<^sup>2" by (rule less_le_trans)
  with n have v: "0 < np_cov a" by (simp add: zero_less_divide_iff)
  from len have l1: "1 \<le> length a" by simp
  note f = scotts_factor_bounds [OF l1]
  have "(1 / ?n)\<^sup>2 \<le> ?f\<^sup>2"
    using f(1) n by (intro power_mono) simp_all
  then have "np_cov a * (1 / ?n)\<^sup>2 \<le> ?c"
    using v by (intro mult_left_mono) simp_all
  then have c1: "np_cov a / ?n\<^sup>2 \<le> ?c" by (simp add: power_divide)
  have "?f\<^sup>2 \<le> 1\<^sup>2"
    using f(2,3) by (intro power_mono) simp_all
  then have "?c \<le> np_cov a * 1"
    using v by (intro mult_left_mono) simp_all
  then have c2: "?c \<le> np_cov a" by simp
  from lo c1 have big: "1 / 3 ^ 500 \<le> ?c" by (rule order_trans)
  then have pos: "0 < ?c" by (rule less_le_trans [rotated]) simp
  from big pos have "1 / 3 ^ 500 \<le> \<bar>?c\<bar>" by simp
  then have u: "underflow ?c = ?c" by (rule underflow_big)
  from len have "\<not> length a \<le> 1" by simp
  with pos have "gaussian_kde a = Inr (kde_evaluate a ?c)"
    by (simp add: gaussian_kde_def Let_def u)
  with pos c1 c2 show ?thesis by blast
qed

lemma underflow_quarter: "underflow (1 / 4) = 1 / 4"
  by (rule underflow_big) simp

lemma np_cov_example_1: "np_cov [0, 1] = 1 / 2"
proof -
  have h: "(1 / 2 :: real)\<^sup>2 = 1 / 4" by (simp add: power2_eq_square)
  have u: "underflow ((1 / 2)\<^sup>2) = 1 / 4" by (simp only: h underflow_quarter)
  show ?thesis
    by (simp add: np_cov_def mean_def u)
qed

lemma gaussian_kde_example_1:
  "\<exists>c. 1 / 8 \<le> c \<and> gaussian_kde [0, 1] = Inr (kde_evaluate [0, 1] c)"
proof -
  have "\<exists>c. 0 < c \<and> np_cov [0, 1] / (real (length [0 :: real, 1]))\<^sup>2 \<le> c \<and> c \<le> np_cov [0, 1] \<and>
              gaussian_kde [0, 1] = Inr (kde_evaluate [0, 1] c)"
    by (rule gaussian_kde_bounds) (simp_all add: np_cov_example_1)
  then show ?thesis by (auto simp: np_cov_example_1)
qed

lemma np_cov_example_4: "np_cov [0, 0, 1] = 1 / 3"
proof -
  have h1: "(1 / 3 :: real)\<^sup>2 = 1 / 9" and h2: "(2 / 3 :: real)\<^sup>2 = 4 / 9"
    by (simp_all add: power2_eq_square)
  have "underflow (1 / 9) = 1 / 9" by (rule underflow_big) simp
  then have u1: "underflow ((1 / 3)\<^sup>2) = 1 / 9" by (simp only: h1)
  have "underflow (4 / 9) = 4 / 9" by (rule underflow_big) simp
  then have u2: "underflow ((2 / 3)\<^sup>2) = 4 / 9" by (simp only: h2)
  show ?thesis
    by (simp add: np_cov_def mean_def u1 u2)
qed

lemma gaussian_kde_example_4:
  "\<exists>c. 1 / 27 \<le> c \<and> gaussian_kde [0, 0, 1] = Inr (kde_evaluate [0, 0, 1] c)"
proof -
  have "\<exists>c. 0 < c \<and> np_cov [0, 0, 1] / (real (length [0 :: real, 0, 1]))\<^sup>2 \<le> c \<and>
              c \<le> np_cov [0, 0, 1] \<and>
              gaussian_kde [0, 0, 1] = Inr (kde_evaluate [0, 0, 1] c)"
    by (rule gaussian_kde_bounds) (simp_all add: np_cov_example_4)
  then show ?thesis by (auto simp: np_cov_example_4)
qed

lemma density_example_1:
  "gaussian_kde [0, 1] = Inr (density gaussian_kde [0, 1])"
  "density gaussian_kde [0, 1] 0 = density gaussian_kde [0, 1] 1"
  "0 < density gaussian_kde [0, 1] 0"
proof -
  from gaussian_kde_example_1 obtain c where
    c: "1 / 8 \<le> c" "gaussian_kde [0, 1] = Inr (kde_evaluate [0, 1] c)" by blast
  then have d: "density gaussian_kde [0, 1] = kde_evaluate [0, 1] c" by (simp add: density_def)
  from c(2) d show "gaussian_kde [0, 1] = Inr (density gaussian_kde [0, 1])" by simp
  have pos: "0 < c" using c(1) by simp
  have r0: "\<forall>xi\<in>set [0, 1]. (0 - xi)\<^sup>2 \<le> 1000 * c" using c(1) by simp
  have r1: "\<forall>xi\<in>set [0, 1]. (1 - xi)\<^sup>2 \<le> 1000 * c" using c(1) by simp
  show "density gaussian_kde [0, 1] 0 = density gaussian_kde [0, 1] 1"
    unfolding d kde_evaluate_regular [OF pos r0] kde_evaluate_regular [OF pos r1] by simp
  have s: "0 < sqrt (2 * pi * c)" using pos by simp
  have "0 < (1 / 2 + exp (- (1 / (2 * c))) / 2) / sqrt (2 * pi * c)"
    using s by (intro divide_pos_pos add_pos_pos) simp_all
  then show "0 < density gaussian_kde [0, 1] 0"
    unfolding d kde_evaluate_regular [OF pos r0] by simp
qed

lemma density_example_4:
  "gaussian_kde [0, 0, 1] = Inr (density gaussian_kde [0, 0, 1])"
  "density gaussian_kde [0, 0, 1] 1 < density gaussian_kde [0, 0, 1] 0"
  "0 < density gaussian_kde [0, 0, 1] 1"
proof -
  from gaussian_kde_example_4 obtain c where
    c: "1 / 27 \<le> c" "gaussian_kde [0, 0, 1] = Inr (kde_evaluate [0, 0, 1] c)" by blast
  then have d: "density gaussian_kde [0, 0, 1] = kde_evaluate [0, 0, 1] c"
    by (simp add: density_def)
  from c(2) d show "gaussian_kde [0, 0, 1] = Inr (density gaussian_kde [0, 0, 1])" by simp
  have pos: "0 < c" using c(1) by simp
  have r0: "\<forall>xi\<in>set [0, 0, 1]. (0 - xi)\<^sup>2 \<le> 1000 * c" using c(1) by simp
  have r1: "\<forall>xi\<in>set [0, 0, 1]. (1 - xi)\<^sup>2 \<le> 1000 * c" using c(1) by simp
  have e: "exp (- (1 / (2 * c))) < 1" using pos by simp
  have e0: "0 < exp (- (1 / (2 * c)))" by simp
  have s: "0 < sqrt (2 * pi * c)" using pos by simp
  have "2 * exp (- (1 / (2 * c))) / 3 + 1 / 3 < 2 / 3 + exp (- (1 / (2 * c))) / 3"
    using e by linarith
  then have "(2 * exp (- (1 / (2 * c))) / 3 + 1 / 3) / sqrt (2 * pi * c)
           < (2 / 3 + exp (- (1 / (2 * c))) / 3) / sqrt (2 * pi * c)"
    using s by (simp only: divide_strict_right_mono)
  then show "density gaussian_kde [0, 0, 1] 1 < density gaussian_kde [0, 0, 1] 0"
    unfolding d kde_evaluate_regular [OF pos r0] kde_evaluate_regular [OF pos r1] by simp
  have "0 < 2 * exp (- (1 / (2 * c))) / 3 + 1 / 3" using e0 by linarith
  then have "0 < (2 * exp (- (1 / (2 * c))) / 3 + 1 / 3) / sqrt (2 * pi * c)"
    using s by (simp only: divide_pos_pos)
  then show "0 < density gaussian_kde [0, 0, 1] 1"
    unfolding d kde_evaluate_regular [OF pos r1] by simp
qed

lemma shared_grid_example: "shared_grid [0, 1] [0, 0, 1] 2 = [0, 1]"
  by (simp add: shared_grid_def numeral_2_eq_2)

lemma shared_grid_example_self: "shared_grid [0, 1] [0, 1] 2 = [0, 1]"
  by (simp add: shared_grid_def numeral_2_eq_2)

lemma density_vector_example_1:
  "density_vector (map (density gaussian_kde [0, 1]) [0, 1])"
  using density_example_1(2,3) by (simp add: density_vector_def)

lemma density_vector_example_4:
  "density_vector (map (density gaussian_kde [0, 0, 1]) [0, 1])"
  using density_example_4(2,3) by (simp add: density_vector_def)

lemma np_cov_pair: "np_cov [a, b] = 2 * underflow (((a - b) / 2)\<^sup>2)"
proof -
  have d1: "a - mean [a, b] = (a - b) / 2" by (simp add: mean_def field_simps)
  have d2: "b - mean [a, b] = - ((a - b) / 2)" by (simp add: mean_def field_simps)
  have "np_cov [a, b] =
          (underflow ((a - mean [a, b])\<^sup>2) + underflow ((b - mean [a, b])\<^sup>2))
            / (real (length [a, b]) - 1)"
    by (simp add: np_cov_def)
  also have "\<dots> = 2 * underflow (((a - b) / 2)\<^sup>2)"
    unfolding d1 d2 by simp
  finally show ?thesis .
qed

lemma valid_sample_example_5: "valid_sample [1 / 2, 500000001 / 1000000000]"
  by (simp add: valid_sample_def)

lemma valid_sample_example_6: "valid_sample [0, 1 / 10 ^ 200]"
  by (simp add: valid_sample_def)

lemma np_cov_example_5: "np_cov [1 / 2, 500000001 / 1000000000] = 1 / 2000000000000000000"
proof -
  have h: "((1 / 2 - 500000001 / 1000000000) / 2 :: real)\<^sup>2 = 1 / 4000000000000000000"
    by (simp add: power2_eq_square)
  have "underflow (1 / 4000000000000000000) = 1 / 4000000000000000000"
    by (rule underflow_big) simp
  then show ?thesis by (simp only: np_cov_pair h)
qed

lemma gaussian_kde_example_5:
  "\<exists>c. 0 < c \<and> c \<le> 1 / 2000000000000000000 \<and>
       gaussian_kde [1 / 2, 500000001 / 1000000000] =
         Inr (kde_evaluate [1 / 2, 500000001 / 1000000000] c)"
proof -
  let ?B = "[1 / 2, 500000001 / 1000000000 :: real]"
  have "\<exists>c. 0 < c \<and> np_cov ?B / (real (length ?B))\<^sup>2 \<le> c \<and> c \<le> np_cov ?B \<and>
              gaussian_kde ?B = Inr (kde_evaluate ?B c)"
    by (rule gaussian_kde_bounds) (simp_all add: np_cov_example_5)
  then show ?thesis by (auto simp: np_cov_example_5)
qed

lemma gaussian_kde_example_6: "gaussian_kde [0, 1 / 10 ^ 200] = Inl LinAlgError"
proof -
  have "\<bar>((0 - 1 / 10 ^ 200) / 2 :: real)\<^sup>2\<bar> \<le> (1 / 2) ^ 1075"
    by (simp add: power2_eq_square power_divide)
  then have "underflow (((0 - 1 / 10 ^ 200) / 2)\<^sup>2) = 0"
    by (simp only: underflow_def if_True)
  then have "np_cov [0, 1 / 10 ^ 200] = 0"
    by (simp only: np_cov_pair)
  then show ?thesis
    by (simp add: gaussian_kde_def underflow_0)
qed

lemma grid_point_far:
  fixes i :: nat
  shows "(1 / 200)\<^sup>2 \<le> (real i / 99 - 1 / 2)\<^sup>2"
    "(1 / 200)\<^sup>2 \<le> (real i / 99 - 500000001 / 1000000000)\<^sup>2"
proof -
  have a: "1 / 200 \<le> \<bar>real i / 99 - 1 / 2\<bar> \<and>
           1 / 200 \<le> \<bar>real i / 99 - 500000001 / 1000000000\<bar>"
  proof (cases "i \<le> 49")
    case True
    then have "real i \<le> 49" by simp
    then show ?thesis by linarith
  next
    case False
    then have "50 \<le> i" by simp
    then have "50 \<le> real i" by simp
    then show ?thesis by linarith
  qed
  have "(1 / 200)\<^sup>2 \<le> \<bar>real i / 99 - 1 / 2\<bar>\<^sup>2"
    using a by (intro power_mono) simp_all
  then show "(1 / 200)\<^sup>2 \<le> (real i / 99 - 1 / 2)\<^sup>2" by simp
  have "(1 / 200)\<^sup>2 \<le> \<bar>real i / 99 - 500000001 / 1000000000\<bar>\<^sup>2"
    using a by (intro power_mono) simp_all
  then show "(1 / 200)\<^sup>2 \<le> (real i / 99 - 500000001 / 1000000000)\<^sup>2" by simp
qed

lemma shared_grid_example_5:
  assumes "x \<in> set (shared_grid [0, 1] [1 / 2, 500000001 / 1000000000] 100)"
  shows "\<exists>i :: nat. x = real i / 99"
  using assms by (auto simp: shared_grid_def)

lemma density_example_5:
  "\<exists>pdf. gaussian_kde [1 / 2, 500000001 / 1000000000] = Inr pdf \<and>
     (\<forall>x\<in>set (shared_grid [0, 1] [1 / 2, 500000001 / 1000000000] 100). pdf x = 0)"
proof -
  let ?B = "[1 / 2, 500000001 / 1000000000 :: real]"
  from gaussian_kde_example_5 obtain c where
    c: "0 < c" "c \<le> 1 / 2000000000000000000" "gaussian_kde ?B = Inr (kde_evaluate ?B c)"
    by blast
  have small: "2150 * c \<le> (1 / 200)\<^sup>2"
    using c(2) by (simp add: power2_eq_square)
  have "kde_evaluate ?B c x = 0" if "x \<in> set (shared_grid [0, 1] ?B 100)" for x
  proof -
    from shared_grid_example_5 [OF that] obtain i :: nat where x: "x = real i / 99" by blast
    have "\<forall>xi\<in>set ?B. 2150 * c \<le> (x - xi)\<^sup>2"
      using order_trans [OF small grid_point_far(1) [of i]]
        order_trans [OF small grid_point_far(2) [of i]]
      by (simp add: x)
    then show ?thesis by (rule kde_evaluate_zero [OF c(1)])
  qed
  with c(3) show ?thesis by blast
qed

text \<open>
  Claim C5, as stated: for every two valid distance samples the two scores are equal.
  It fails for the samples \<open>[0, 1]\<close> and \<open>[0.5, 0.500000001]\<close> with the default
  grid of 100 points: every grid point is so far from the second sample, in units of its
  bandwidth, that its density underflows to 0 on the whole grid; the normalization
  divides 0 by 0 and the score is NaN, in both orders, and a NaN is not equal to a NaN.
\<close>

theorem score_representativeness_nan_both_orders:
  "valid_sample [0, 1] \<and> valid_sample [1 / 2, 500000001 / 1000000000] \<and>
   score_representativeness gaussian_kde [0, 1] [1 / 2, 500000001 / 1000000000] 100 =
     Inl FloatingPointError \<and>
   score_representativeness gaussian_kde [1 / 2, 500000001 / 1000000000] [0, 1] 100 =
     Inl FloatingPointError \<and>
   \<not> float_eq
       (score_representativeness gaussian_kde [0, 1] [1 / 2, 500000001 / 1000000000] 100)
       (score_representativeness gaussian_kde [1 / 2, 500000001 / 1000000000] [0, 1] 100)"
proof -
  from density_example_5 obtain pdf where
    B: "gaussian_kde [1 / 2, 500000001 / 1000000000] = Inr pdf"
    and z: "\<forall>x\<in>set (shared_grid [0, 1] [1 / 2, 500000001 / 1000000000] 100). pdf x = 0"
    by blast
  have n: "(0 :: nat) < 100" by simp
  note s = score_not_a_number [OF density_example_1(1) B n z]
  show ?thesis
    by (simp add: s float_eq_def valid_sample_example_1 valid_sample_example_5)
qed

text \<open>
  Claim C5, amended. Whenever the score of two samples is a number, the score of the
  samples in the other order is the same number, for every estimator. When both density
  estimates exist, the two orders have the same outcome, a number or NaN. The two
  floats compare equal exactly when the score is a number.
\<close>

theorem score_representativeness_symmetric:
  "(score_representativeness kde A B num_samples = Inr v \<longrightarrow>
      score_representativeness kde B A num_samples = Inr v) \<and>
   (kde A = Inr pdf_A \<longrightarrow> kde B = Inr pdf_B \<longrightarrow>
      score_representativeness kde A B num_samples =
        score_representativeness kde B A num_samples) \<and>
   float_eq (score_representativeness kde A B num_samples)
            (score_representativeness kde B A num_samples) =
     (\<exists>w. score_representativeness kde A B num_samples = Inr w)"
proof (intro conjI impI)
  assume "score_representativeness kde A B num_samples = Inr v"
  then show "score_representativeness kde B A num_samples = Inr v"
    by (rule score_commute_number)
next
  assume A: "kde A = Inr pdf_A" and B: "kde B = Inr pdf_B"
  have s: "set (B @ A) = set (A @ B)" by auto
  show "score_representativeness kde A B num_samples =
        score_representativeness kde B A num_samples"
    unfolding score_representativeness_def A B Let_def s
    by (simp add: jensenshannon_commute [of "map pdf_B _"])
next
  show "float_eq (score_representativeness kde A B num_samples)
                 (score_representativeness kde B A num_samples) =
        (\<exists>w. score_representativeness kde A B num_samples = Inr w)"
  proof (cases "score_representativeness kde A B num_samples")
    case (Inl e)
    then show ?thesis by (simp add: float_eq_def)
  next
    case (Inr w)
    from score_commute_number [OF Inr] Inr show ?thesis by (simp add: float_eq_def)
  qed
qed

theorem score_representativeness_symmetric_witness:
  "score_representativeness gaussian_kde [0, 1] [0, 0, 1] 2 =
     Inr (1 - sqrt (js_divergence
             (normalized (map (density gaussian_kde [0, 1]) [0, 1]))
             (normalized (map (density gaussian_kde [0, 0, 1]) [0, 1])))) \<and>
   score_representativeness gaussian_kde [0, 0, 1] [0, 1] 2 =
     Inr (1 - sqrt (js_divergence
             (normalized (map (density gaussian_kde [0, 1]) [0, 1]))
             (normalized (map (density gaussian_kde [0, 0, 1]) [0, 1])))) \<and>
   float_eq (score_representativeness gaussian_kde [0, 1] [0, 0, 1] 2)
            (score_representativeness gaussian_kde [0, 0, 1] [0, 1] 2)"
proof -
  let ?v = "1 - sqrt (js_divergence
             (normalized (map (density gaussian_kde [0, 1]) [0, 1]))
             (normalized (map (density gaussian_kde [0, 0, 1]) [0, 1])))"
  have p: "density_vector (map (density gaussian_kde [0, 1]) (shared_grid [0, 1] [0, 0, 1] 2))"
    unfolding shared_grid_example by (rule density_vector_example_1)
  have q: "density_vector
             (map (density gaussian_kde [0, 0, 1]) (shared_grid [0, 1] [0, 0, 1] 2))"
    unfolding shared_grid_example by (rule density_vector_example_4)
  have s: "score_representativeness gaussian_kde [0, 1] [0, 0, 1] 2 = Inr ?v"
    using score_js_distance [OF density_example_1(1) density_example_4(1) p q]
    unfolding shared_grid_example .
  from score_representativeness_symmetric [of gaussian_kde "[0, 1]" "[0, 0, 1]" 2 ?v] s
  show ?thesis by (simp add: float_eq_def)
qed

text \<open>
  Claim C6, as stated: the score of every valid distance sample against itself is 1.
  It fails for the sample \<open>[0, 1e-200]\<close>: the squared deviations from the mean
  underflow to 0, so the variance is 0 and \<^verbatim>\<open>gaussian_kde\<close> raises LinAlgError.
\<close>

theorem score_representativeness_self_raises:
  "valid_sample [0, 1 / 10 ^ 200] \<and>
   score_representativeness gaussian_kde [0, 1 / 10 ^ 200] [0, 1 / 10 ^ 200] 100 =
     Inl LinAlgError"
proof -
  have "score_representativeness gaussian_kde [0, 1 / 10 ^ 200] [0, 1 / 10 ^ 200] 100 =
          Inl LinAlgError"
    by (simp only: score_representativeness_def gaussian_kde_example_6 sum.case)
  with valid_sample_example_6 show ?thesis by (rule conjI)
qed

text \<open>
  Claim C6, amended. When the estimator accepts a sample and the values of its density
  on the grid can be normalized (none is negative and, unless the grid is empty, not all
  are zero), the score of the sample against itself is 1, for every estimator.
\<close>

theorem score_representativeness_self:
  assumes "kde A = Inr pdf"
    and "density_vector (map pdf (shared_grid A A num_samples))"
  shows "score_representativeness kde A A num_samples = Inr 1"
proof -
  have "jensenshannon (map pdf (shared_grid A A num_samples))
          (map pdf (shared_grid A A num_samples)) 2 = Some 0"
    by (rule jensenshannon_self [OF assms(2)])
  then show ?thesis
    unfolding score_representativeness_def assms(1) Let_def shared_grid_linspace [symmetric]
    by simp
qed

theorem score_representativeness_self_witness:
  "valid_sample [0, 1] \<and>
   gaussian_kde [0, 1] = Inr (density gaussian_kde [0, 1]) \<and>
   density_vector (map (density gaussian_kde [0, 1]) (shared_grid [0, 1] [0, 1] 2)) \<and>
   score_representativeness gaussian_kde [0, 1] [0, 1] 2 = Inr 1"
proof -
  have p: "density_vector (map (density gaussian_kde [0, 1]) (shared_grid [0, 1] [0, 1] 2))"
    unfolding shared_grid_example_self by (rule density_vector_example_1)
  from score_representativeness_self
    [of gaussian_kde "[0, 1]" "density gaussian_kde [0, 1]" 2, OF density_example_1(1) p]
    p density_example_1(1)
    valid_sample_example_1
  show ?thesis by simp
qed




end
